theory Spec2Isabelle
  imports Complex_Main "HOL-Library.AList"
begin

section \<open>JSON values and JavaScript objects\<close>

text \<open>
  A number as \<^verbatim>\<open>JSON.parse\<close> returns it: a finite value other than negative zero,
  negative zero (the literal \<^verbatim>\<open>-0\<close>), or an infinity, which is what a literal beyond the
  range of a double such as \<^verbatim>\<open>1e400\<close> parses to. \<^verbatim>\<open>NaN\<close> has no literal.
\<close>

datatype number = Finite rat | NegZero | PosInfinity | NegInfinity

text \<open>
  The values that \<^verbatim>\<open>JSON.parse\<close> produces. A string is its UTF-8 text; an object is its
  list of properties in property order (the keys of a parsed object are distinct).
\<close>

datatype json =
    JNull
  | JBool bool
  | JNum number
  | JStr string
  | JArr "json list"
  | JObj "(string \<times> json) list"

type_synonym obj = "(string \<times> json) list"

text \<open>
  Reading a property \<^verbatim>\<open>f.k\<close> of an object: \<open>None\<close> is JavaScript's \<^verbatim>\<open>undefined\<close>.
\<close>

definition jsget :: "obj \<Rightarrow> string \<Rightarrow> json option" where
  "jsget f k = map_of f k"

text \<open>
  JavaScript truthiness of a property value: \<^verbatim>\<open>undefined\<close>, \<^verbatim>\<open>null\<close>, \<^verbatim>\<open>false\<close>,
  \<^verbatim>\<open>0\<close>, \<^verbatim>\<open>-0\<close> and the empty string are falsy, everything else is truthy.
\<close>

fun nonzero :: "number \<Rightarrow> bool" where
  "nonzero (Finite q) = (q \<noteq> 0)"
| "nonzero NegZero = False"
| "nonzero PosInfinity = True"
| "nonzero NegInfinity = True"

fun truthy :: "json option \<Rightarrow> bool" where
  "truthy None = False"
| "truthy (Some JNull) = False"
| "truthy (Some (JBool b)) = b"
| "truthy (Some (JNum n)) = nonzero n"
| "truthy (Some (JStr s)) = (s \<noteq> [])"
| "truthy (Some (JArr xs)) = True"
| "truthy (Some (JObj ps)) = True"

text \<open>\<^verbatim>\<open>a || b\<close>: the left operand when it is truthy, the right one otherwise.\<close>

definition or_else :: "json option \<Rightarrow> json \<Rightarrow> json" where
  "or_else a b = (case a of Some x \<Rightarrow> if truthy a then x else b | None \<Rightarrow> b)"

text \<open>
  The properties of a value that are reachable under a name that is not an array index
  and not defined on a prototype (every name that feature-loader.js reads is such a
  name): those of an object are its own, a string, number, boolean or array has none.
  Reading any property of \<^verbatim>\<open>null\<close> throws a TypeError, which \<open>member\<close> returns as
  \<open>None\<close>.
\<close>

fun named :: "json \<Rightarrow> obj" where
  "named (JObj ps) = ps"
| "named v = []"

definition member :: "json \<Rightarrow> string \<Rightarrow> json option option" where
  "member f k = (if f = JNull then None else Some (jsget (named f) k))"

text \<open>Decimal rendering of a number inside a template literal.\<close>

function string_of_nat :: "nat \<Rightarrow> string" where
  "string_of_nat n =
     (if n < 10 then [''0123456789'' ! n]
      else string_of_nat (n div 10) @ [''0123456789'' ! (n mod 10)])"
  by pat_completeness auto
termination
  by (relation "measure id") auto

declare string_of_nat.simps [simp del]

text \<open>
  Object spread \<^verbatim>\<open>{...f}\<close>: the own enumerable properties of \<^verbatim>\<open>f\<close>. An array and a
  string spread to their indexed elements, \<^verbatim>\<open>null\<close>, a number and a boolean to nothing.
\<close>

fun spread :: "json \<Rightarrow> obj" where
  "spread (JObj ps) = ps"
| "spread (JArr xs) = zip (map string_of_nat [0..<length xs]) xs"
| "spread (JStr s) = zip (map string_of_nat [0..<length s]) (map (\<lambda>c. JStr [c]) s)"
| "spread v = []"

section \<open>The file system\<close>

text \<open>
  A file is modelled by what \<^verbatim>\<open>JSON.parse\<close> makes of its text: \<open>Doc v\<close> is a file whose
  text parses to \<open>v\<close>, \<open>Text s\<close> a file whose text \<open>s\<close> is rejected with a SyntaxError.
  \<open>files\<close> maps a path to its file (\<open>None\<close>: reading it fails), \<open>locked\<close> holds the paths
  that cannot be written, and \<open>writes\<close> records the paths written, latest first.
\<close>

datatype content = Text string | Doc json

record filesystem =
  files :: "string \<Rightarrow> content option"
  locked :: "string set"
  writes :: "string list"

text \<open>The paths written between two states of the file system, latest first.\<close>

definition written_during :: "filesystem \<Rightarrow> filesystem \<Rightarrow> string list" where
  "written_during fs fs' = take (length (writes fs') - length (writes fs)) (writes fs')"

definition readFile :: "filesystem \<Rightarrow> string \<Rightarrow> content option" where
  "readFile fs p = files fs p"

definition writeFile :: "filesystem \<Rightarrow> string \<Rightarrow> content \<Rightarrow> filesystem option" where
  "writeFile fs p c =
     (if p \<in> locked fs then None
      else Some (fs\<lparr>files := (files fs)(p \<mapsto> c), writes := p # writes fs\<rparr>))"

text \<open>
  \<^verbatim>\<open>path.join(projectPath, ".automaker", "feature_list.json")\<close> and its backup sibling;
  paths are modelled without normalisation.
\<close>

definition featuresPath :: "string \<Rightarrow> string" where
  "featuresPath projectPath = projectPath @ ''/.automaker/feature_list.json''"

definition backupPath :: "string \<Rightarrow> string" where
  "backupPath projectPath = projectPath @ ''/.automaker/feature_list.backup.json''"

section \<open>feature-loader.js: loadFeatures\<close>

text \<open>
  The template literal \<^verbatim>\<open>`feature-${index}-${Date.now()}`\<close>; \<open>t\<close> is the value of
  \<^verbatim>\<open>Date.now()\<close>.
\<close>

definition synth_id :: "nat \<Rightarrow> nat \<Rightarrow> string" where
  "synth_id index t = ''feature-'' @ string_of_nat index @ ''-'' @ string_of_nat t"

text \<open>
  The callback of \<^verbatim>\<open>features.map\<close>: \<^verbatim>\<open>{...f, id: f.id || `feature-...`}\<close>. \<open>clock i\<close> is
  what \<^verbatim>\<open>Date.now()\<close> returns while element \<open>i\<close> is mapped. \<open>None\<close> is the TypeError of
  reading \<^verbatim>\<open>f.id\<close> on \<^verbatim>\<open>null\<close>.
\<close>

definition ensure_id :: "(nat \<Rightarrow> nat) \<Rightarrow> nat \<times> json \<Rightarrow> obj option" where
  "ensure_id clock p =
     (case p of (index, f) \<Rightarrow>
        (case member f ''id'' of
           None \<Rightarrow> None
         | Some v \<Rightarrow>
             Some (AList.update ''id'' (or_else v (JStr (synth_id index (clock index))))
                     (spread f))))"

text \<open>
  Every exception inside the \<^verbatim>\<open>try\<close> block (the file cannot be read, its text does not
  parse, the parsed value has no \<^verbatim>\<open>map\<close> method, an element is \<^verbatim>\<open>null\<close>) is caught and
  gives the empty list.
\<close>

definition loadFeatures :: "filesystem \<Rightarrow> (nat \<Rightarrow> nat) \<Rightarrow> string \<Rightarrow> obj list" where
  "loadFeatures fs clock projectPath =
     (case readFile fs (featuresPath projectPath) of
        Some (Doc (JArr features)) \<Rightarrow>
          (case those (map (ensure_id clock) (List.enumerate 0 features)) of
             Some r \<Rightarrow> r
           | None \<Rightarrow> [])
      | _ \<Rightarrow> [])"

section \<open>feature-loader.js: selectNextFeature\<close>

text \<open>
  \<^verbatim>\<open>features.find((f) => f.status !== "verified" && f.status !== "waiting_approval")\<close>
\<close>

definition eligible :: "obj \<Rightarrow> bool" where
  "eligible f \<longleftrightarrow>
     jsget f ''status'' \<noteq> Some (JStr ''verified'') \<and>
     jsget f ''status'' \<noteq> Some (JStr ''waiting_approval'')"

definition selectNextFeature :: "obj list \<Rightarrow> obj option" where
  "selectNextFeature features = List.find eligible features"

section \<open>feature-loader.js: updateFeatureStatus\<close>

datatype error = TypeError | Critical string | IOError | ReadError

text \<open>
  The backup step: copy the text of the feature list to the backup path. A failure of the
  read or of the write is caught and only logged.
\<close>

definition backup :: "filesystem \<Rightarrow> string \<Rightarrow> filesystem" where
  "backup fs projectPath =
     (case readFile fs (featuresPath projectPath) of
        None \<Rightarrow> fs
      | Some originalContent \<Rightarrow>
          (case writeFile fs (backupPath projectPath) originalContent of
             None \<Rightarrow> fs
           | Some fs' \<Rightarrow> fs'))"

text \<open>
  The recovery step: when the loaded list is empty and the backup parses to a non-empty
  array, the elements of the backup replace the list, as they are
  (\<^verbatim>\<open>features.push(...backupFeatures)\<close>); any failure is caught and only logged. The
  limit that an engine puts on the number of arguments of a call is not modelled.
\<close>

definition restore :: "filesystem \<Rightarrow> string \<Rightarrow> json list \<Rightarrow> json list" where
  "restore fs projectPath features =
     (if features = [] then
        (case readFile fs (backupPath projectPath) of
           Some (Doc (JArr backupFeatures)) \<Rightarrow>
             if backupFeatures \<noteq> [] then backupFeatures else features
         | _ \<Rightarrow> features)
      else features)"

text \<open>
  \<^verbatim>\<open>features.find((f) => f.id === featureId)\<close>, as the index of the element found. The
  callback throws a TypeError on a \<^verbatim>\<open>null\<close> element.
\<close>

fun find_by_id :: "string \<Rightarrow> json list \<Rightarrow> error + nat option" where
  "find_by_id featureId [] = Inr None"
| "find_by_id featureId (f # rest) =
     (case member f ''id'' of
        None \<Rightarrow> Inl TypeError
      | Some v \<Rightarrow>
          if v = Some (JStr featureId) then Inr (Some 0)
          else (case find_by_id featureId rest of
                  Inl e \<Rightarrow> Inl e
                | Inr None \<Rightarrow> Inr None
                | Inr (Some i) \<Rightarrow> Inr (Some (Suc i))))"

text \<open>A string argument is truthy when it is given and not empty.\<close>

fun given :: "string option \<Rightarrow> bool" where
  "given None = False"
| "given (Some s) = (s \<noteq> [])"

text \<open>
  The assignments to the feature found: status always, summary when truthy, error when
  truthy and deleted otherwise. The feature found is an object, since its \<^verbatim>\<open>id\<close> is a
  string.
\<close>

definition patch :: "string \<Rightarrow> string option \<Rightarrow> string option \<Rightarrow> json \<Rightarrow> json" where
  "patch status summary err f =
     (case f of
        JObj ps \<Rightarrow>
          (let p1 = AList.update ''status'' (JStr status) ps;
               p2 = (case summary of
                       Some s \<Rightarrow> if given summary then AList.update ''summary'' (JStr s) p1 else p1
                     | None \<Rightarrow> p1);
               p3 = (case err of
                       Some e \<Rightarrow> if given err then AList.update ''error'' (JStr e) p2
                                 else AList.delete ''error'' p2
                     | None \<Rightarrow> AList.delete ''error'' p2)
           in JObj p3)
      | _ \<Rightarrow> f)"

text \<open>
  The object literal \<^verbatim>\<open>featureData\<close> built for one feature: the five fields always (their
  value may be \<^verbatim>\<open>undefined\<close>), each optional field when it is not \<^verbatim>\<open>undefined\<close>.
\<close>

definition required_fields :: "string list" where
  "required_fields = [''id'', ''category'', ''description'', ''steps'', ''status'']"

definition optional_fields :: "string list" where
  "optional_fields =
     [''skipTests'', ''images'', ''imagePaths'', ''startedAt'', ''summary'', ''model'',
      ''thinkingLevel'', ''error'', ''worktreePath'', ''branchName'']"

definition project :: "obj \<Rightarrow> (string \<times> json option) list" where
  "project f =
     map (\<lambda>k. (k, jsget f k)) required_fields @
     concat (map (\<lambda>k. case jsget f k of None \<Rightarrow> [] | Some v \<Rightarrow> [(k, Some v)]) optional_fields)"

definition featureData :: "json \<Rightarrow> (string \<times> json option) list option" where
  "featureData f = (if f = JNull then None else Some (project (named f)))"

text \<open>
  What a later \<^verbatim>\<open>JSON.parse\<close> reads back from \<^verbatim>\<open>JSON.stringify\<close> of a parsed value:
  the value itself, except that an infinite number is written as \<^verbatim>\<open>null\<close> and negative
  zero as \<^verbatim>\<open>0\<close>, at any depth.
\<close>

primrec reparsed :: "json \<Rightarrow> json" where
  "reparsed JNull = JNull"
| "reparsed (JBool b) = JBool b"
| "reparsed (JNum n) =
     (case n of
        Finite q \<Rightarrow> JNum (Finite q)
      | NegZero \<Rightarrow> JNum (Finite 0)
      | PosInfinity \<Rightarrow> JNull
      | NegInfinity \<Rightarrow> JNull)"
| "reparsed (JStr s) = JStr s"
| "reparsed (JArr xs) = JArr (map reparsed xs)"
| "reparsed (JObj ps) = JObj (map (map_prod id reparsed) ps)"

text \<open>
  What is read back from \<^verbatim>\<open>JSON.stringify\<close> of the object literal \<^verbatim>\<open>featureData\<close>:
  properties whose value is \<^verbatim>\<open>undefined\<close> are left out, the others hold the value as it
  is read back.
\<close>

definition stringified :: "(string \<times> json option) list \<Rightarrow> json" where
  "stringified d =
     JObj (concat (map (\<lambda>(k, v). case v of None \<Rightarrow> [] | Some x \<Rightarrow> [(k, reparsed x)]) d))"

text \<open>
  The list the update works on: \<^verbatim>\<open>loadFeatures\<close> followed by the recovery step.
\<close>

definition reload :: "filesystem \<Rightarrow> (nat \<Rightarrow> nat) \<Rightarrow> string \<Rightarrow> json list" where
  "reload fs clock projectPath =
     restore fs projectPath (map JObj (loadFeatures fs clock projectPath))"

definition updateFeatureStatus ::
  "filesystem \<Rightarrow> (nat \<Rightarrow> nat) \<Rightarrow> string \<Rightarrow> string \<Rightarrow> string \<Rightarrow> string option \<Rightarrow> string option
     \<Rightarrow> (error + unit) \<times> filesystem" where
  "updateFeatureStatus fs clock featureId status projectPath summary err =
     (let fs1 = backup fs projectPath;
          features = reload fs1 clock projectPath
      in case find_by_id featureId features of
           Inl e \<Rightarrow> (Inl e, fs1)
         | Inr None \<Rightarrow> (Inr (), fs1)
         | Inr (Some i) \<Rightarrow>
             (case those (map featureData
                            (features[i := patch status summary err (features ! i)])) of
                None \<Rightarrow> (Inl TypeError, fs1)
              | Some toSave \<Rightarrow>
                  if toSave = [] then
                    (Inl (Critical ''Attempted to save empty feature list''), fs1)
                  else
                    (case writeFile fs1 (featuresPath projectPath)
                            (Doc (JArr (map stringified toSave))) of
                       None \<Rightarrow> (Inl IOError, fs1)
                     | Some fs2 \<Rightarrow> (Inr (), fs2))))"

section \<open>feature-loader.js: updateFeatureWorktree\<close>

text \<open>
  \<^verbatim>\<open>worktreePath\<close> and \<^verbatim>\<open>branchName\<close> are a string or \<^verbatim>\<open>null\<close> (\<open>None\<close>).
\<close>

definition nullable :: "string option \<Rightarrow> json" where
  "nullable s = (case s of None \<Rightarrow> JNull | Some x \<Rightarrow> JStr x)"

definition patch_worktree :: "string option \<Rightarrow> string option \<Rightarrow> json \<Rightarrow> json" where
  "patch_worktree worktreePath branchName f =
     (case f of
        JObj ps \<Rightarrow>
          if given worktreePath then
            JObj (AList.update ''branchName'' (nullable branchName)
                    (AList.update ''worktreePath'' (nullable worktreePath) ps))
          else JObj (AList.delete ''branchName'' (AList.delete ''worktreePath'' ps))
      | _ \<Rightarrow> f)"

definition updateFeatureWorktree ::
  "filesystem \<Rightarrow> (nat \<Rightarrow> nat) \<Rightarrow> string \<Rightarrow> string \<Rightarrow> string option \<Rightarrow> string option
     \<Rightarrow> (error + unit) \<times> filesystem" where
  "updateFeatureWorktree fs clock featureId projectPath worktreePath branchName =
     (let features = map JObj (loadFeatures fs clock projectPath)
      in if features = [] then (Inr (), fs)
         else (case find_by_id featureId features of
                 Inl e \<Rightarrow> (Inl e, fs)
               | Inr None \<Rightarrow> (Inr (), fs)
               | Inr (Some i) \<Rightarrow>
                   (case those (map featureData
                                  (features[i := patch_worktree worktreePath branchName
                                                   (features ! i)])) of
                      None \<Rightarrow> (Inl TypeError, fs)
                    | Some toSave \<Rightarrow>
                        (case writeFile fs (featuresPath projectPath)
                                (Doc (JArr (map stringified toSave))) of
                           None \<Rightarrow> (Inl IOError, fs)
                         | Some fs2 \<Rightarrow> (Inr (), fs2)))))"

section \<open>subprocess.ts: spawnJSONLProcess\<close>

text \<open>
  What the child process does, as far as the generator observes it: the text it writes to
  its standard output (UTF-8), whether reading that stream ends in an error, the text
  accumulated from its standard error, and what becomes of its exit. The listeners for
  \<^verbatim>\<open>exit\<close> and \<^verbatim>\<open>error\<close> are attached only after the standard output has been read to
  its end: \<open>Missed\<close> is a process whose event was emitted before that, so that the promise
  is never resolved; \<open>Exited code\<close> is a process whose event reaches the listener, with
  \<open>None\<close> for \<^verbatim>\<open>null\<close> (the process was killed by a signal, or \<^verbatim>\<open>error\<close> was emitted).
  The standard output is a pipe, so the stream is there. Timers, the abort signal and
  logging are left out: they act on the process, whose behaviour is given here.
\<close>

datatype exit_event = Missed | Exited "nat option"

record process =
  stdout :: string
  read_error :: bool
  stderrOutput :: string
  exitEvent :: exit_event

text \<open>
  The lines that \<^verbatim>\<open>readline\<close> delivers with \<^verbatim>\<open>crlfDelay: Infinity\<close>: a line ends at LF,
  CR LF or CR; text after the last line end is a line of its own when it is not empty.
  \<open>acc\<close> holds the current line, reversed.
\<close>

fun split_lines :: "string \<Rightarrow> string \<Rightarrow> string list" where
  "split_lines acc [] = (if acc = [] then [] else [rev acc])"
| "split_lines acc (c # cs) =
     (if c = CHR 0x0A then rev acc # split_lines [] cs
      else if c = CHR 0x0D then
        (case cs of
           [] \<Rightarrow> [rev acc]
         | d # ds \<Rightarrow> if d = CHR 0x0A then rev acc # split_lines [] ds
                     else rev acc # split_lines [] cs)
      else split_lines (c # acc) cs)"

text \<open>
  The white space that \<^verbatim>\<open>String.prototype.trim\<close> removes, each character in its UTF-8
  encoding: U+0009 to U+000D, U+0020, U+00A0, U+1680, U+2000 to U+200A, U+2028, U+2029,
  U+202F, U+205F, U+3000 and U+FEFF.
\<close>

definition white_space :: "string list" where
  "white_space =
     [[CHR 0x09], [CHR 0x0A], [CHR 0x0B], [CHR 0x0C], [CHR 0x0D], [CHR 0x20],
      [CHR 0xC2, CHR 0xA0],
      [CHR 0xE1, CHR 0x9A, CHR 0x80],
      [CHR 0xE2, CHR 0x80, CHR 0x80], [CHR 0xE2, CHR 0x80, CHR 0x81],
      [CHR 0xE2, CHR 0x80, CHR 0x82], [CHR 0xE2, CHR 0x80, CHR 0x83],
      [CHR 0xE2, CHR 0x80, CHR 0x84], [CHR 0xE2, CHR 0x80, CHR 0x85],
      [CHR 0xE2, CHR 0x80, CHR 0x86], [CHR 0xE2, CHR 0x80, CHR 0x87],
      [CHR 0xE2, CHR 0x80, CHR 0x88], [CHR 0xE2, CHR 0x80, CHR 0x89],
      [CHR 0xE2, CHR 0x80, CHR 0x8A],
      [CHR 0xE2, CHR 0x80, CHR 0xA8], [CHR 0xE2, CHR 0x80, CHR 0xA9],
      [CHR 0xE2, CHR 0x80, CHR 0xAF],
      [CHR 0xE2, CHR 0x81, CHR 0x9F],
      [CHR 0xE3, CHR 0x80, CHR 0x80],
      [CHR 0xEF, CHR 0xBB, CHR 0xBF]]"

text \<open>Removing from the front of a text every leading member of a table of texts.\<close>

function strip :: "string list \<Rightarrow> string \<Rightarrow> string" where
  "strip table s =
     (case List.find (\<lambda>w. w \<noteq> [] \<and> take (length w) s = w) table of
        None \<Rightarrow> s
      | Some w \<Rightarrow> strip table (drop (length w) s))"
  by pat_completeness auto
termination
proof (relation "measure (\<lambda>(table, s). length s)")
  show "wf (measure (\<lambda>(table, s). length s))" by simp
next
  fix table :: "string list" and s w :: string
  assume "List.find (\<lambda>w. w \<noteq> [] \<and> take (length w) s = w) table = Some w"
  then have w: "w \<noteq> []" and t: "take (length w) s = w"
    by (auto simp: find_Some_iff)
  from t have "length (take (length w) s) = length w" by simp
  then have "length w \<le> length s" by simp
  with w show "((table, drop (length w) s), (table, s)) \<in> measure (\<lambda>(table, s). length s)"
    by (cases w) auto
qed

declare strip.simps [simp del]

text \<open>\<^verbatim>\<open>line.trim()\<close>: the white space is removed at both ends.\<close>

definition trim :: "string \<Rightarrow> string" where
  "trim s = rev (strip (map rev white_space) (rev (strip white_space s)))"

definition error_record :: "string \<Rightarrow> json" where
  "error_record msg = JObj [(''type'', JStr ''error''), (''error'', JStr msg)]"

text \<open>
  The body of the \<^verbatim>\<open>for await\<close> loop, yielding into a list. \<open>parse\<close> is \<^verbatim>\<open>JSON.parse\<close>
  on a line of text, \<open>None\<close> when it throws.
\<close>

fun process_lines :: "(string \<Rightarrow> json option) \<Rightarrow> string list \<Rightarrow> json list" where
  "process_lines parse [] = []"
| "process_lines parse (line # rest) =
     (if trim line = [] then process_lines parse rest
      else (case parse line of
              Some parsed \<Rightarrow> parsed
            | None \<Rightarrow> error_record (''Failed to parse output: '' @ line))
           # process_lines parse rest)"

text \<open>The records yielded once the exit code \<open>code\<close> has reached the generator.\<close>

definition exit_records :: "string \<Rightarrow> nat option \<Rightarrow> json list" where
  "exit_records stderr exitCode =
     (case exitCode of
        None \<Rightarrow> []
      | Some code \<Rightarrow>
          if code \<noteq> 0 then
            [error_record (if stderr \<noteq> [] then stderr
                           else ''Process exited with code '' @ string_of_nat code)]
          else [])"

text \<open>
  How the generator ends: it returns, it throws, or it waits for ever for an exit that
  was emitted before it listened.
\<close>

datatype outcome = Returned | Threw error | Pending

text \<open>
  The records the generator yields, in order, and how it ends: an error of the stdout
  stream is rethrown after the records of the lines read before it.
\<close>

definition spawnJSONLProcess ::
  "(string \<Rightarrow> json option) \<Rightarrow> process \<Rightarrow> json list \<times> outcome" where
  "spawnJSONLProcess parse p =
     (let records = process_lines parse (split_lines [] (stdout p))
      in if read_error p then (records, Threw ReadError)
         else (case exitEvent p of
                 Missed \<Rightarrow> (records, Pending)
               | Exited exitCode \<Rightarrow>
                   (records @ exit_records (stderrOutput p) exitCode, Returned)))"

section \<open>Sample inputs\<close>

text \<open>
  A clock that stands still and one that ticks with every element; a feature list of four
  elements, of which only the first has a truthy id.
\<close>

definition fixed_clock :: "nat \<Rightarrow> nat \<Rightarrow> nat" where
  "fixed_clock t i = t"

definition ticking_clock :: "nat \<Rightarrow> nat" where
  "ticking_clock i = 1700000000000 + i"

definition unnumbered_fs :: filesystem where
  "unnumbered_fs =
     \<lparr>files = [featuresPath ''proj'' \<mapsto>
                 Doc (JArr [JObj [(''id'', JStr ''a''), (''status'', JStr ''backlog'')],
                            JObj [(''id'', JNum (Finite 0)), (''category'', JStr ''ui'')],
                            JStr ''hi'',
                            JObj [(''description'', JStr ''login page'')]])],
      locked = {}, writes = []\<rparr>"

text \<open>
  A project whose feature list is the empty array; one whose feature list has been
  replaced by the empty array while the backup still holds a record; and one whose
  feature list holds a \<^verbatim>\<open>null\<close> entry.
\<close>

definition empty_backlog_fs :: filesystem where
  "empty_backlog_fs =
     \<lparr>files = [featuresPath ''proj'' \<mapsto> Doc (JArr [])], locked = {}, writes = []\<rparr>"

definition emptied_fs :: filesystem where
  "emptied_fs =
     \<lparr>files = [featuresPath ''proj'' \<mapsto> Doc (JArr []),
               backupPath ''proj'' \<mapsto>
                 Doc (JArr [JObj [(''id'', JStr ''a''), (''status'', JStr ''backlog'')]])],
      locked = {}, writes = []\<rparr>"

definition null_record_fs :: filesystem where
  "null_record_fs =
     \<lparr>files = [featuresPath ''proj'' \<mapsto> Doc (JArr [JNull])], locked = {}, writes = []\<rparr>"

text \<open>
  A project with one feature that carries a field outside the saved field set.
\<close>

definition one_feature_fs :: filesystem where
  "one_feature_fs =
     \<lparr>files = [featuresPath ''proj'' \<mapsto>
                 Doc (JArr [JObj [(''id'', JStr ''a''), (''status'', JStr ''backlog''),
                                  (''title'', JStr ''Login'')]])],
      locked = {}, writes = []\<rparr>"

text \<open>
  The output \<^verbatim>\<open>{"a":1}\nNOT JSON\n{"b":2}\n\<close> with its two valid lines, a stand-in for
  \<^verbatim>\<open>JSON.parse\<close> that knows these two lines, a process killed by a signal after writing to
  its standard error, and a process that exits with code 2 in silence.
\<close>

definition line_a :: string where
  "line_a = ''{'' @ [CHR 0x22] @ ''a'' @ [CHR 0x22] @ '':1}''"

definition line_b :: string where
  "line_b = ''{'' @ [CHR 0x22] @ ''b'' @ [CHR 0x22] @ '':2}''"

definition example_stdout :: string where
  "example_stdout = line_a @ [CHR 0x0A] @ ''NOT JSON'' @ [CHR 0x0A] @ line_b @ [CHR 0x0A]"

definition sample_parse :: "string \<Rightarrow> json option" where
  "sample_parse s =
     (if s = line_a then Some (JObj [(''a'', JNum (Finite 1))])
      else if s = line_b then Some (JObj [(''b'', JNum (Finite 2))])
      else None)"

definition killed_process :: process where
  "killed_process =
     \<lparr>stdout = [], read_error = False, stderrOutput = ''boom'', exitEvent = Exited None\<rparr>"

definition failed_process :: process where
  "failed_process =
     \<lparr>stdout = [], read_error = False, stderrOutput = [], exitEvent = Exited (Some 2)\<rparr>"

text \<open>
  A line of white space other than line ends; the output above with blank lines of
  several kinds between its lines; and a line that holds U+200B, which is not white
  space.
\<close>

definition blank_line :: string where
  "blank_line =
     [CHR 0x0B, CHR 0x0C, CHR 0x20, CHR 0xC2, CHR 0xA0, CHR 0xE1, CHR 0x9A, CHR 0x80,
      CHR 0xE2, CHR 0x80, CHR 0x80, CHR 0xE2, CHR 0x80, CHR 0x81, CHR 0xE2, CHR 0x80, CHR 0x82,
      CHR 0xE2, CHR 0x80, CHR 0x83, CHR 0xE2, CHR 0x80, CHR 0x84, CHR 0xE2, CHR 0x80, CHR 0x85,
      CHR 0xE2, CHR 0x80, CHR 0x86, CHR 0xE2, CHR 0x80, CHR 0x87, CHR 0xE2, CHR 0x80, CHR 0x88,
      CHR 0xE2, CHR 0x80, CHR 0x89, CHR 0xE2, CHR 0x80, CHR 0x8A, CHR 0xE2, CHR 0x80, CHR 0xAF,
      CHR 0xE2, CHR 0x81, CHR 0x9F, CHR 0xE3, CHR 0x80, CHR 0x80, CHR 0xEF, CHR 0xBB, CHR 0xBF]"

definition spaced_stdout :: string where
  "spaced_stdout =
     line_a @ [CHR 0x0A, CHR 0x0A] @ ''  '' @ [CHR 0x09, CHR 0x0D, CHR 0x0A] @
     [CHR 0xC2, CHR 0xA0, CHR 0x0A] @ ''NOT JSON'' @ [CHR 0x0A] @ blank_line @ [CHR 0x0A] @
     line_b"

definition zero_width_line :: string where
  "zero_width_line = [CHR 0xE2, CHR 0x80, CHR 0x8B]"

text \<open>
  A backlog of three features: one with a field outside the saved field set, one whose
  steps hold an infinite number and a negative zero, and one without an id. And a project
  whose feature list holds two features and a \<^verbatim>\<open>null\<close> entry, with an older backup that
  cannot be written.
\<close>

definition backlog_fs :: filesystem where
  "backlog_fs =
     \<lparr>files = [featuresPath ''proj'' \<mapsto>
                 Doc (JArr [JObj [(''id'', JStr ''a''), (''status'', JStr ''backlog''),
                                  (''title'', JStr ''Login'')],
                            JObj [(''id'', JStr ''b''), (''status'', JStr ''in_progress''),
                                  (''steps'', JArr [JNum PosInfinity, JNum NegZero, JNum (Finite 3)]),
                                  (''error'', JStr ''old'')],
                            JObj [(''description'', JStr ''no id'')]])],
      locked = {}, writes = []\<rparr>"

definition stale_backup_fs :: filesystem where
  "stale_backup_fs =
     \<lparr>files = [featuresPath ''proj'' \<mapsto>
                 Doc (JArr [JObj [(''id'', JStr ''x'')], JObj [(''id'', JStr ''y'')], JNull]),
               backupPath ''proj'' \<mapsto>
                 Doc (JArr [JObj [(''id'', JStr ''a''), (''status'', JStr ''backlog'')]])],
      locked = {backupPath ''proj''}, writes = []\<rparr>"

section \<open>Auxiliary facts\<close>

lemma paths_differ: "featuresPath p \<noteq> backupPath p"
  by (simp add: featuresPath_def backupPath_def)

lemma backup_files_features: "files (backup fs p) (featuresPath p) = files fs (featuresPath p)"
  using paths_differ [of p]
  by (auto simp: backup_def readFile_def writeFile_def split: option.splits if_splits)

lemma backup_locked: "locked (backup fs p) = locked fs"
  by (auto simp: backup_def readFile_def writeFile_def split: option.splits if_splits)

lemma backup_writes:
  "writes (backup fs p) = writes fs \<or> writes (backup fs p) = backupPath p # writes fs"
  by (auto simp: backup_def readFile_def writeFile_def split: option.splits if_splits)

lemma loadFeatures_cong:
  "files fs' (featuresPath p) = files fs (featuresPath p) \<Longrightarrow>
   loadFeatures fs' clock p = loadFeatures fs clock p"
  by (simp add: loadFeatures_def readFile_def)

lemma loadFeatures_backup: "loadFeatures (backup fs p) clock p = loadFeatures fs clock p"
  by (rule loadFeatures_cong) (rule backup_files_features)

lemma those_map_Some:
  "those (map f xs) = Some ys \<Longrightarrow>
   length ys = length xs \<and> (\<forall>i<length xs. f (xs ! i) = Some (ys ! i))"
proof (induction xs arbitrary: ys)
  case Nil
  then show ?case by simp
next
  case (Cons x xs)
  then obtain y zs where y: "f x = Some y" and zs: "those (map f xs) = Some zs" and ys: "ys = y # zs"
    by (auto split: option.splits)
  from Cons.IH [OF zs] y ys show ?case
    by (auto simp: nth_Cons split: nat.splits)
qed

lemma those_map_None: "those (map f xs) = None \<Longrightarrow> \<exists>x\<in>set xs. f x = None"
  by (induction xs) (auto split: option.splits)

lemma find_by_id_Some:
  "find_by_id fid fs = Inr (Some i) \<Longrightarrow>
   i < length fs \<and> (\<exists>ps. fs ! i = JObj ps \<and> jsget ps ''id'' = Some (JStr fid)) \<and>
   (\<forall>j<i. member (fs ! j) ''id'' \<noteq> Some (Some (JStr fid)))"
proof (induction fs arbitrary: i)
  case Nil
  then show ?case by simp
next
  case (Cons f fs)
  show ?case
  proof (cases "member f ''id'' = Some (Some (JStr fid))")
    case True
    with Cons.prems have "i = 0" by simp
    moreover from True obtain ps where "f = JObj ps"
      by (cases f) (auto simp: member_def jsget_def)
    ultimately show ?thesis using True by (auto simp: member_def)
  next
    case False
    with Cons.prems obtain i' where i': "find_by_id fid fs = Inr (Some i')" "i = Suc i'"
      by (auto split: option.splits sum.splits if_splits)
    from Cons.IH [OF i'(1)] i'(2) False show ?thesis
      by (auto simp: nth_Cons split: nat.splits)
  qed
qed

lemma find_by_id_None:
  "find_by_id fid fs = Inr None \<Longrightarrow>
   (\<forall>f\<in>set fs. f \<noteq> JNull \<and> member f ''id'' \<noteq> Some (Some (JStr fid)))"
  by (induction fs) (auto simp: member_def split: option.splits sum.splits if_splits)

lemma find_by_id_TypeError:
  "find_by_id fid fs = Inl e \<Longrightarrow> e = TypeError \<and> JNull \<in> set fs"
  by (induction fs) (auto simp: member_def split: option.splits sum.splits if_splits)

lemma updateFeatureStatus_cases:
  fixes fs clock fid status p summary err
  defines "fs1 \<equiv> backup fs p"
    and "W \<equiv> reload (backup fs p) clock p"
    and "u \<equiv> updateFeatureStatus fs clock fid status p summary err"
  obtains
    (type_error) "JNull \<in> set W" "u = (Inl TypeError, fs1)"
  | (not_found) "find_by_id fid W = Inr None" "u = (Inr (), fs1)"
  | (io_error) i where "find_by_id fid W = Inr (Some i)" "featuresPath p \<in> locked fs"
      "u = (Inl IOError, fs1)"
  | (saved) i toSave where "find_by_id fid W = Inr (Some i)"
      "those (map featureData (W[i := patch status summary err (W ! i)])) = Some toSave"
      "toSave \<noteq> []" "featuresPath p \<notin> locked fs"
      "u = (Inr (), fs1\<lparr>files := (files fs1)(featuresPath p \<mapsto> Doc (JArr (map stringified toSave))),
                        writes := featuresPath p # writes fs1\<rparr>)"
proof -
  have u: "u = (case find_by_id fid W of
           Inl e \<Rightarrow> (Inl e, fs1)
         | Inr None \<Rightarrow> (Inr (), fs1)
         | Inr (Some i) \<Rightarrow>
             (case those (map featureData (W[i := patch status summary err (W ! i)])) of
                None \<Rightarrow> (Inl TypeError, fs1)
              | Some toSave \<Rightarrow>
                  if toSave = [] then
                    (Inl (Critical ''Attempted to save empty feature list''), fs1)
                  else
                    (case writeFile fs1 (featuresPath p) (Doc (JArr (map stringified toSave))) of
                       None \<Rightarrow> (Inl IOError, fs1)
                     | Some fs2 \<Rightarrow> (Inr (), fs2))))"
    unfolding u_def updateFeatureStatus_def Let_def W_def fs1_def ..
  show thesis
  proof (cases "find_by_id fid W")
    case (Inl e)
    with find_by_id_TypeError [OF Inl] u type_error show ?thesis by simp
  next
    case (Inr r)
    show ?thesis
    proof (cases r)
      case None
      with Inr u not_found show ?thesis by simp
    next
      case (Some i)
      with Inr have found: "find_by_id fid W = Inr (Some i)" by simp
      from find_by_id_Some [OF found] obtain ps where i: "i < length W" and ps: "W ! i = JObj ps"
        by blast
      let ?W' = "W[i := patch status summary err (W ! i)]"
      show ?thesis
      proof (cases "those (map featureData ?W')")
        case None
        then have "\<exists>f \<in> set ?W'. featureData f = None"
          by (rule those_map_None)
        then obtain f where f: "f \<in> set ?W'" "f = JNull"
          by (auto simp: featureData_def split: if_splits)
        have "patch status summary err (W ! i) \<noteq> JNull"
          by (simp add: ps patch_def Let_def)
        with f have "JNull \<in> set W"
          using set_update_subset_insert [of W i "patch status summary err (W ! i)"] by auto
        moreover have "u = (Inl TypeError, fs1)" using u found None by simp
        ultimately show ?thesis by (rule type_error)
      next
        case (Some toSave)
        from those_map_Some [OF Some] i have ne: "toSave \<noteq> []" by auto
        show ?thesis
        proof (cases "featuresPath p \<in> locked fs")
          case True
          then have "writeFile fs1 (featuresPath p) (Doc (JArr (map stringified toSave))) = None"
            by (simp add: writeFile_def fs1_def backup_locked)
          with u found Some ne have "u = (Inl IOError, fs1)" by simp
          with found True show ?thesis by (rule io_error)
        next
          case False
          then have "writeFile fs1 (featuresPath p) (Doc (JArr (map stringified toSave))) =
              Some (fs1\<lparr>files := (files fs1)(featuresPath p \<mapsto> Doc (JArr (map stringified toSave))),
                        writes := featuresPath p # writes fs1\<rparr>)"
            by (simp add: writeFile_def fs1_def backup_locked)
          with u found Some ne have "u = (Inr (), fs1\<lparr>files := (files fs1)(featuresPath p \<mapsto> Doc (JArr (map stringified toSave))),
                        writes := featuresPath p # writes fs1\<rparr>)" by simp
          with found Some ne False show ?thesis by (rule saved)
        qed
      qed
    qed
  qed
qed


lemma map_of_defined_fields:
  "map_of (concat (map (\<lambda>k. case m k of None \<Rightarrow> [] | Some v \<Rightarrow> [(k, g v)]) ks)) k' =
   (if k' \<in> set ks then map_option g (m k') else None)"
  by (induction ks) (auto split: option.splits)

lemma drop_undefined_optional:
  "concat (map (\<lambda>(k, v). case v of None \<Rightarrow> [] | Some x \<Rightarrow> [(k, g x)])
     (concat (map (\<lambda>k. case m k of None \<Rightarrow> [] | Some v \<Rightarrow> [(k, Some v)]) ks))) =
   concat (map (\<lambda>k. case m k of None \<Rightarrow> [] | Some v \<Rightarrow> [(k, g v)]) ks)"
  by (induction ks) (auto split: option.splits)

lemma stringified_project:
  "stringified (project f) =
   JObj (concat (map (\<lambda>k. case jsget f k of None \<Rightarrow> [] | Some v \<Rightarrow> [(k, reparsed v)])
                   (required_fields @ optional_fields)))"
  by (simp add: stringified_def project_def comp_def drop_undefined_optional)

lemma jsget_stringified_project:
  "jsget (named (stringified (project f))) k =
   (if k \<in> set (required_fields @ optional_fields) then map_option reparsed (jsget f k)
    else None)"
  unfolding stringified_project named.simps
  by (subst jsget_def) (rule map_of_defined_fields)

lemma reparsed_nullable: "reparsed (nullable s) = nullable s"
  by (cases s) (simp_all add: nullable_def)

lemma truthy_or_else: "s \<noteq> [] \<Longrightarrow> truthy (Some (or_else v (JStr s)))"
  by (cases v) (auto simp: or_else_def)

lemma or_else_truthy: "truthy (Some x) \<Longrightarrow> or_else (Some x) d = x"
  by (simp add: or_else_def)

lemma or_else_falsy: "\<not> truthy v \<Longrightarrow> or_else v d = d"
  by (cases v) (auto simp: or_else_def)

lemma synth_id_nonempty: "synth_id i t \<noteq> []"
  by (simp add: synth_id_def)

lemma jsget_update: "jsget (AList.update k v ps) k' = (if k' = k then Some v else jsget ps k')"
  by (simp add: jsget_def update_conv')

lemma jsget_delete: "jsget (AList.delete k ps) k' = (if k' = k then None else jsget ps k')"
  by (simp add: jsget_def delete_conv')

lemma ensure_id_Some:
  "ensure_id clock (i, f) = Some r \<Longrightarrow>
   f \<noteq> JNull \<and>
   r = AList.update ''id'' (or_else (jsget (named f) ''id'') (JStr (synth_id i (clock i)))) (spread f)"
  by (auto simp: ensure_id_def member_def split: if_splits)

lemma ensure_id_truthy: "ensure_id clock (i, f) = Some r \<Longrightarrow> truthy (jsget r ''id'')"
  by (drule ensure_id_Some) (simp add: jsget_update truthy_or_else synth_id_nonempty)

lemma those_ensure_id:
  "JNull \<notin> set xs \<Longrightarrow>
   those (map (ensure_id clock) (List.enumerate n xs)) =
   Some (map (\<lambda>(i, f). AList.update ''id''
                (or_else (jsget (named f) ''id'') (JStr (synth_id i (clock i)))) (spread f))
           (List.enumerate n xs))"
  by (induction xs arbitrary: n) (auto simp: ensure_id_def member_def)

lemma loadFeatures_Doc:
  "files fs (featuresPath p) = Some (Doc (JArr xs)) \<Longrightarrow>
   loadFeatures fs clock p =
     (case those (map (ensure_id clock) (List.enumerate 0 xs)) of Some r \<Rightarrow> r | None \<Rightarrow> [])"
  by (simp add: loadFeatures_def readFile_def)

lemma loadFeatures_truthy_ids:
  "f \<in> set (loadFeatures fs clock p) \<Longrightarrow> truthy (jsget f ''id'')"
proof -
  assume f: "f \<in> set (loadFeatures fs clock p)"
  then obtain xs r where r: "those (map (ensure_id clock) (List.enumerate 0 xs)) = Some r"
    and fr: "f \<in> set r"
    by (auto simp: loadFeatures_def split: option.splits content.splits json.splits) metis
  from fr obtain i where i: "i < length r" "r ! i = f" by (auto simp: in_set_conv_nth)
  from those_map_Some [OF r] i
  have "ensure_id clock (List.enumerate 0 xs ! i) = Some f" by auto
  then show ?thesis by (cases "List.enumerate 0 xs ! i") (auto dest: ensure_id_truthy)
qed


lemma reload_backup:
  "reload (backup fs p) clock p = restore (backup fs p) p (map JObj (loadFeatures fs clock p))"
  by (simp add: reload_def loadFeatures_backup)

lemma restore_nonempty: "xs \<noteq> [] \<Longrightarrow> restore fs p xs = xs"
  by (simp add: restore_def)

lemma written_during_backup:
  "written_during fs (backup fs p) = [] \<or> written_during fs (backup fs p) = [backupPath p]"
  using backup_writes [of fs p] by (auto simp: written_during_def)

lemma written_during_saved:
  "writes fs' = q # writes (backup fs p) \<Longrightarrow>
   written_during fs fs' = q # written_during fs (backup fs p)"
  using backup_writes [of fs p] by (auto simp: written_during_def)

section \<open>Selection of the next feature\<close>

text \<open>
  Claim C4. \<open>selectNextFeature\<close> returns the first feature, in list order, whose status
  is neither \<^verbatim>\<open>verified\<close> nor \<^verbatim>\<open>waiting_approval\<close>, and nothing when every feature has
  one of these two statuses. A feature in status \<^verbatim>\<open>error\<close> is eligible, and over the
  statuses verified, waiting_approval, backlog, error the feature at index 2 is returned.
\<close>

theorem selectNextFeature_first_eligible:
  "(selectNextFeature features = None \<longleftrightarrow> (\<forall>f\<in>set features. \<not> eligible f)) \<and>
   (selectNextFeature features = Some f \<longleftrightarrow>
      (\<exists>i<length features. features ! i = f \<and> eligible f \<and> (\<forall>j<i. \<not> eligible (features ! j)))) \<and>
   (eligible f \<longleftrightarrow>
      jsget f ''status'' \<noteq> Some (JStr ''verified'') \<and>
      jsget f ''status'' \<noteq> Some (JStr ''waiting_approval'')) \<and>
   (jsget f ''status'' = Some (JStr ''error'') \<longrightarrow> eligible f) \<and>
   selectNextFeature
     [[(''status'', JStr ''verified'')], [(''status'', JStr ''waiting_approval'')],
      [(''status'', JStr ''backlog'')], [(''status'', JStr ''error'')]]
   = Some ([[(''status'', JStr ''verified'')], [(''status'', JStr ''waiting_approval'')],
      [(''status'', JStr ''backlog'')], [(''status'', JStr ''error'')]] ! 2)"
proof -
  have "selectNextFeature features = None \<longleftrightarrow> (\<forall>f\<in>set features. \<not> eligible f)"
    by (auto simp: selectNextFeature_def find_None_iff)
  moreover have "selectNextFeature features = Some f \<longleftrightarrow>
      (\<exists>i<length features. features ! i = f \<and> eligible f \<and> (\<forall>j<i. \<not> eligible (features ! j)))"
    by (auto simp: selectNextFeature_def find_Some_iff)
  moreover have "jsget f ''status'' = Some (JStr ''error'') \<longrightarrow> eligible f"
    by (simp add: eligible_def)
  moreover have "selectNextFeature
     [[(''status'', JStr ''verified'')], [(''status'', JStr ''waiting_approval'')],
      [(''status'', JStr ''backlog'')], [(''status'', JStr ''error'')]]
   = Some ([[(''status'', JStr ''verified'')], [(''status'', JStr ''waiting_approval'')],
      [(''status'', JStr ''backlog'')], [(''status'', JStr ''error'')]] ! 2)"
    by (simp add: selectNextFeature_def eligible_def jsget_def)
  ultimately show ?thesis
    by (simp only: eligible_def simp_thms)
qed

theorem selectNextFeature_first_eligible_witness:
  "selectNextFeature [[(''status'', JStr ''verified'')], [(''status'', JStr ''error'')]]
   = Some [(''status'', JStr ''error'')]"
proof -
  let ?L = "[[(''status'', JStr ''verified'')], [(''status'', JStr ''error'')]]"
  let ?f = "[(''status'', JStr ''error'')]"
  have "\<exists>i<length ?L. ?L ! i = ?f \<and> eligible ?f \<and> (\<forall>j<i. \<not> eligible (?L ! j))"
    by (rule exI [of _ 1]) (simp add: eligible_def jsget_def)
  with selectNextFeature_first_eligible [of ?L ?f] show ?thesis
    by blast
qed

section \<open>Identifiers assigned by loadFeatures\<close>

lemma digit_inj:
  "a < 10 \<Longrightarrow> b < 10 \<Longrightarrow> ''0123456789'' ! a = ''0123456789'' ! b \<Longrightarrow> a = b"
proof -
  assume a: "a < 10" and b: "b < 10" and eq: "''0123456789'' ! a = ''0123456789'' ! b"
  have d: "distinct ''0123456789''" by simp
  from a b have "a < length ''0123456789''" "b < length ''0123456789''" by simp_all
  with d eq show "a = b" by (simp only: nth_eq_iff_index_eq)
qed

lemma string_of_nat_nonempty: "string_of_nat n \<noteq> []"
  by (subst string_of_nat.simps) simp

lemma string_of_nat_inj: "string_of_nat a = string_of_nat b \<Longrightarrow> a = b"
proof (induction a arbitrary: b rule: string_of_nat.induct)
  case (1 n)
  show ?case
  proof (cases "n < 10")
    case True
    show ?thesis
    proof (cases "b < 10")
      case b: True
      from "1.prems" True b have "''0123456789'' ! n = ''0123456789'' ! b"
        by (simp add: string_of_nat.simps [of n] string_of_nat.simps [of b])
      with True b show ?thesis by (rule digit_inj)
    next
      case False
      with "1.prems" True have "string_of_nat (b div 10) = []"
        by (simp add: string_of_nat.simps [of n] string_of_nat.simps [of b])
      then show ?thesis by (simp add: string_of_nat_nonempty)
    qed
  next
    case False
    show ?thesis
    proof (cases "b < 10")
      case True
      with "1.prems" False have "string_of_nat (n div 10) = []"
        by (simp add: string_of_nat.simps [of n] string_of_nat.simps [of b])
      then show ?thesis by (simp add: string_of_nat_nonempty)
    next
      case b: False
      from "1.prems" False b
      have eq: "string_of_nat (n div 10) = string_of_nat (b div 10)"
        and dg: "''0123456789'' ! (n mod 10) = ''0123456789'' ! (b mod 10)"
        by (simp_all add: string_of_nat.simps [of n] string_of_nat.simps [of b])
      from "1.IH" [OF False eq] have "n div 10 = b div 10" .
      moreover have "n mod 10 = b mod 10"
        by (rule digit_inj [OF _ _ dg]) simp_all
      ultimately show ?thesis by (metis div_mult_mod_eq)
    qed
  qed
qed

lemma synth_id_inj: "synth_id i t = synth_id i t' \<Longrightarrow> t = t'"
  by (simp add: synth_id_def string_of_nat_inj)

lemma loadFeatures_nth:
  assumes "files fs (featuresPath p) = Some (Doc (JArr xs))" and "JNull \<notin> set xs"
    and "i < length xs"
  shows "i < length (loadFeatures fs clock p) \<and>
     loadFeatures fs clock p ! i =
       AList.update ''id'' (or_else (jsget (named (xs ! i)) ''id'') (JStr (synth_id i (clock i))))
         (spread (xs ! i))"
  using assms
  by (simp add: loadFeatures_Doc those_ensure_id nth_enumerate_eq)

lemma unnumbered_load:
  "loadFeatures unnumbered_fs ticking_clock ''proj'' =
     [[(''id'', JStr ''a''), (''status'', JStr ''backlog'')],
      [(''id'', JStr ''feature-1-1700000000001''), (''category'', JStr ''ui'')],
      [(''0'', JStr ''h''), (''1'', JStr ''i''), (''id'', JStr ''feature-2-1700000000002'')],
      [(''description'', JStr ''login page''), (''id'', JStr ''feature-3-1700000000003'')]]"
  by (simp add: loadFeatures_def unnumbered_fs_def readFile_def ensure_id_def member_def
      jsget_def or_else_def synth_id_def ticking_clock_def string_of_nat.simps enumerate_eq_zip
      upt_rec)

text \<open>
  Claim C10. Every feature that \<open>loadFeatures\<close> returns has a truthy id. When the file
  parses to an array without \<^verbatim>\<open>null\<close> elements, a record whose id is absent or falsy is
  returned at its index with the id \<^verbatim>\<open>feature-<index>-<time>\<close>, index and time in
  decimal, and a record whose id is truthy keeps it. \<open>loadFeatures\<close> only reads the file
  system, so the id is not stored: a second load of the same file system at a different
  time returns a different id for that record. In a list of four elements loaded while
  the clock ticks from 1700000000000, the elements at indices 1, 2 and 3, which have no
  truthy id, get the ids with their own index and time.
\<close>

theorem loadFeatures_ids:
  "(\<forall>f\<in>set (loadFeatures fs clock p). truthy (jsget f ''id'')) \<and>
   (\<forall>xs i. files fs (featuresPath p) = Some (Doc (JArr xs)) \<and> JNull \<notin> set xs \<and>
       i < length xs \<and> \<not> truthy (jsget (named (xs ! i)) ''id'') \<longrightarrow>
       i < length (loadFeatures fs clock p) \<and>
       jsget (loadFeatures fs clock p ! i) ''id'' =
         Some (JStr (''feature-'' @ string_of_nat i @ ''-'' @ string_of_nat (clock i))) \<and>
       (clock' i \<noteq> clock i \<longrightarrow>
          jsget (loadFeatures fs clock' p ! i) ''id'' \<noteq> jsget (loadFeatures fs clock p ! i) ''id'')) \<and>
   (\<forall>xs i. files fs (featuresPath p) = Some (Doc (JArr xs)) \<and> JNull \<notin> set xs \<and>
       i < length xs \<and> truthy (jsget (named (xs ! i)) ''id'') \<longrightarrow>
       jsget (loadFeatures fs clock p ! i) ''id'' = jsget (named (xs ! i)) ''id'') \<and>
   loadFeatures unnumbered_fs ticking_clock ''proj'' =
     [[(''id'', JStr ''a''), (''status'', JStr ''backlog'')],
      [(''id'', JStr ''feature-1-1700000000001''), (''category'', JStr ''ui'')],
      [(''0'', JStr ''h''), (''1'', JStr ''i''), (''id'', JStr ''feature-2-1700000000002'')],
      [(''description'', JStr ''login page''), (''id'', JStr ''feature-3-1700000000003'')]]"
proof (intro conjI allI impI ballI)
  fix f assume "f \<in> set (loadFeatures fs clock p)"
  then show "truthy (jsget f ''id'')" by (rule loadFeatures_truthy_ids)
next
  fix xs i
  assume h: "files fs (featuresPath p) = Some (Doc (JArr xs)) \<and> JNull \<notin> set xs \<and>
       i < length xs \<and> \<not> truthy (jsget (named (xs ! i)) ''id'')"
  then have n: "\<And>c. i < length (loadFeatures fs c p) \<and>
     loadFeatures fs c p ! i =
       AList.update ''id'' (or_else (jsget (named (xs ! i)) ''id'') (JStr (synth_id i (c i))))
         (spread (xs ! i))"
    by (intro loadFeatures_nth) simp_all
  from n [of clock] show "i < length (loadFeatures fs clock p)" by simp
  from h have id: "\<And>c. jsget (loadFeatures fs c p ! i) ''id'' = Some (JStr (synth_id i (c i)))"
    by (simp add: n jsget_update or_else_falsy)
  from id [of clock]
  show "jsget (loadFeatures fs clock p ! i) ''id'' =
      Some (JStr (''feature-'' @ string_of_nat i @ ''-'' @ string_of_nat (clock i)))"
    by (simp add: synth_id_def)
  assume "clock' i \<noteq> clock i"
  then show "jsget (loadFeatures fs clock' p ! i) ''id'' \<noteq> jsget (loadFeatures fs clock p ! i) ''id''"
    by (auto simp: id dest: synth_id_inj)
next
  fix xs i
  assume h: "files fs (featuresPath p) = Some (Doc (JArr xs)) \<and> JNull \<notin> set xs \<and>
       i < length xs \<and> truthy (jsget (named (xs ! i)) ''id'')"
  then have n: "loadFeatures fs clock p ! i =
       AList.update ''id'' (or_else (jsget (named (xs ! i)) ''id'') (JStr (synth_id i (clock i))))
         (spread (xs ! i))"
    using loadFeatures_nth [of fs p xs i clock] by simp
  from h obtain x where x: "jsget (named (xs ! i)) ''id'' = Some x"
    by (cases "jsget (named (xs ! i)) ''id''") auto
  with h show "jsget (loadFeatures fs clock p ! i) ''id'' = jsget (named (xs ! i)) ''id''"
    by (simp add: n jsget_update or_else_truthy)
next
  show "loadFeatures unnumbered_fs ticking_clock ''proj'' =
     [[(''id'', JStr ''a''), (''status'', JStr ''backlog'')],
      [(''id'', JStr ''feature-1-1700000000001''), (''category'', JStr ''ui'')],
      [(''0'', JStr ''h''), (''1'', JStr ''i''), (''id'', JStr ''feature-2-1700000000002'')],
      [(''description'', JStr ''login page''), (''id'', JStr ''feature-3-1700000000003'')]]"
    by (rule unnumbered_load)
qed

theorem loadFeatures_ids_witness:
  "jsget (loadFeatures unnumbered_fs ticking_clock ''proj'' ! 3) ''id'' =
     Some (JStr ''feature-3-1700000000003'') \<and>
   jsget (loadFeatures unnumbered_fs (fixed_clock 42) ''proj'' ! 3) ''id'' \<noteq>
   jsget (loadFeatures unnumbered_fs ticking_clock ''proj'' ! 3) ''id''"
proof -
  let ?xs = "[JObj [(''id'', JStr ''a''), (''status'', JStr ''backlog'')],
              JObj [(''id'', JNum (Finite 0)), (''category'', JStr ''ui'')],
              JStr ''hi'',
              JObj [(''description'', JStr ''login page'')]]"
  have "files unnumbered_fs (featuresPath ''proj'') = Some (Doc (JArr ?xs)) \<and>
        JNull \<notin> set ?xs \<and> (3::nat) < length ?xs \<and>
        \<not> truthy (jsget (named (?xs ! 3)) ''id'')"
    by (simp add: unnumbered_fs_def jsget_def)
  moreover have "fixed_clock 42 (3::nat) \<noteq> ticking_clock 3"
    by (simp add: fixed_clock_def ticking_clock_def)
  ultimately have ab: "jsget (loadFeatures unnumbered_fs ticking_clock ''proj'' ! 3) ''id'' =
         Some (JStr (''feature-'' @ string_of_nat 3 @ ''-'' @ string_of_nat (ticking_clock 3))) \<and>
     jsget (loadFeatures unnumbered_fs (fixed_clock 42) ''proj'' ! 3) ''id'' \<noteq>
     jsget (loadFeatures unnumbered_fs ticking_clock ''proj'' ! 3) ''id''"
    using loadFeatures_ids [of unnumbered_fs ticking_clock "''proj''" "fixed_clock 42"]
    by blast
  have s: "''feature-'' @ string_of_nat 3 @ ''-'' @ string_of_nat (ticking_clock 3) =
      ''feature-3-1700000000003''"
    by (simp add: ticking_clock_def string_of_nat.simps)
  from ab show ?thesis unfolding s .
qed

section \<open>The outcomes of updateFeatureStatus\<close>

lemma those_featureData:
  "JNull \<notin> set xs \<Longrightarrow> those (map featureData xs) = Some (map (\<lambda>f. project (named f)) xs)"
  by (induction xs) (auto simp: featureData_def)

lemma those_featureData_Some:
  "those (map featureData xs) = Some ys \<Longrightarrow> ys = map (\<lambda>f. project (named f)) xs"
proof -
  assume a: "those (map featureData xs) = Some ys"
  have "JNull \<notin> set xs"
  proof
    assume "JNull \<in> set xs"
    then have "those (map featureData xs) = None"
      by (induction xs) (auto simp: featureData_def split: option.splits)
    with a show False by simp
  qed
  from those_featureData [OF this] a show ?thesis by simp
qed

lemma jsget_patch:
  "jsget (named (patch status summary err (JObj ps))) k =
     (if k = ''status'' then Some (JStr status)
      else if k = ''summary'' \<and> given summary then map_option JStr summary
      else if k = ''error'' then (if given err then map_option JStr err else None)
      else jsget ps k)"
  by (cases summary; cases err)
     (simp_all add: patch_def Let_def jsget_update jsget_delete)

lemma not_written_backup:
  "featuresPath p \<notin> set (written_during fs (backup fs p))"
  using written_during_backup [of fs p] paths_differ [of p] by auto

lemma update_cases_files:
  assumes "updateFeatureStatus fs clock fid status p summary err = (r, fs')"
  shows "(fs' = backup fs p \<and> featuresPath p \<notin> set (written_during fs fs') \<and>
            files fs' (featuresPath p) = files fs (featuresPath p) \<and>
            (r = Inl TypeError \<or> r = Inl IOError \<or>
             r = Inr () \<and> find_by_id fid (reload (backup fs p) clock p) = Inr None)) \<or>
         (\<exists>i. find_by_id fid (reload (backup fs p) clock p) = Inr (Some i) \<and>
            r = Inr () \<and> featuresPath p \<in> set (written_during fs fs') \<and>
            files fs' (featuresPath p) =
              Some (Doc (JArr (map (\<lambda>f. stringified (project (named f)))
                ((reload (backup fs p) clock p)
                   [i := patch status summary err (reload (backup fs p) clock p ! i)])))))"
proof (cases rule: updateFeatureStatus_cases [where fs=fs and clock=clock and fid=fid
    and status=status and p=p and summary=summary and err=err])
  case type_error
  with assms show ?thesis by (auto simp: not_written_backup backup_files_features)
next
  case not_found
  with assms show ?thesis by (auto simp: not_written_backup backup_files_features)
next
  case (io_error i)
  with assms show ?thesis by (auto simp: not_written_backup backup_files_features)
next
  case (saved i toSave)
  from saved(5) assms have r: "r = Inr ()" and fs': "fs' = (backup fs p)\<lparr>files := (files (backup fs p))(featuresPath p \<mapsto> Doc (JArr (map stringified toSave))),
                        writes := featuresPath p # writes (backup fs p)\<rparr>" by simp_all
  from fs' have "writes fs' = featuresPath p # writes (backup fs p)" by simp
  from written_during_saved [OF this] have w: "featuresPath p \<in> set (written_during fs fs')" by simp
  from those_featureData_Some [OF saved(2)]
  have "map stringified toSave = map (\<lambda>f. stringified (project (named f)))
                ((reload (backup fs p) clock p)
                   [i := patch status summary err (reload (backup fs p) clock p ! i)])"
    by simp
  with fs' have "files fs' (featuresPath p) =
              Some (Doc (JArr (map (\<lambda>f. stringified (project (named f)))
                ((reload (backup fs p) clock p)
                   [i := patch status summary err (reload (backup fs p) clock p ! i)]))))"
    by simp
  with saved(1) r w show ?thesis by blast
qed

lemma canonical_id: "''id'' \<in> set (required_fields @ optional_fields)"
  by (simp add: required_fields_def)

lemma reload_loaded:
  "loadFeatures fs clock p \<noteq> [] \<Longrightarrow>
   reload (backup fs p) clock p = map JObj (loadFeatures fs clock p)"
  by (simp add: reload_backup restore_nonempty)

lemma updateFeatureStatus_found:
  assumes "find_by_id fid (map JObj (loadFeatures fs clock p)) = Inr (Some i)"
    and "featuresPath p \<notin> locked fs"
  shows "updateFeatureStatus fs clock fid status p summary err =
     (Inr (),
      (backup fs p)\<lparr>files := (files (backup fs p))(featuresPath p \<mapsto>
          Doc (JArr (map (\<lambda>f. stringified (project (named f)))
            ((map JObj (loadFeatures fs clock p))
               [i := patch status summary err (JObj (loadFeatures fs clock p ! i))])))),
        writes := featuresPath p # writes (backup fs p)\<rparr>)"
proof -
  let ?L = "loadFeatures fs clock p"
  let ?W' = "(map JObj ?L)[i := patch status summary err (JObj (?L ! i))]"
  from find_by_id_Some [OF assms(1)] have i: "i < length ?L" by simp
  then have "?L \<noteq> []" by auto
  then have W: "reload (backup fs p) clock p = map JObj ?L" by (rule reload_loaded)
  have "patch status summary err (JObj (?L ! i)) \<noteq> JNull"
    by (simp add: patch_def Let_def)
  then have "JNull \<notin> set ?W'"
    using set_update_subset_insert [of "map JObj ?L" i "patch status summary err (JObj (?L ! i))"]
    by auto
  from those_featureData [OF this]
  have t: "those (map featureData ?W') = Some (map (\<lambda>f. project (named f)) ?W')" .
  have ne: "map (\<lambda>f. project (named f)) ?W' \<noteq> []" using i by auto
  have w: "\<And>c. writeFile (backup fs p) (featuresPath p) c =
      Some ((backup fs p)\<lparr>files := (files (backup fs p))(featuresPath p \<mapsto> c),
                          writes := featuresPath p # writes (backup fs p)\<rparr>)"
    using assms(2) by (simp add: writeFile_def backup_locked)
  show ?thesis
    unfolding updateFeatureStatus_def Let_def W
    using assms(1) i t ne by (simp add: w comp_def)
qed

lemma jsget_patched_list:
  assumes "i < length L" and "j < length L"
  shows "jsget (named ((map JObj L)[i := patch status summary err (JObj (L ! i))] ! j)) k =
     (if j = i \<and> k = ''status'' then Some (JStr status)
      else if j = i \<and> k = ''summary'' \<and> given summary then map_option JStr summary
      else if j = i \<and> k = ''error'' then (if given err then map_option JStr err else None)
      else jsget (L ! j) k)"
  using assms by (cases "j = i") (simp_all add: jsget_patch)

section \<open>The guard against writing an empty list\<close>

text \<open>
  Claim C1, as stated, fails: when the list that would be serialised is empty, the id
  is not found in it and the call returns normally before the guard is reached; no fatal
  error is raised. Here the feature list is the empty array.
\<close>

theorem updateFeatureStatus_empty_returns_silently:
  "reload (backup empty_backlog_fs ''proj'') (fixed_clock 0) ''proj'' = [] \<and>
   fst (updateFeatureStatus empty_backlog_fs (fixed_clock 0) ''a'' ''verified'' ''proj'' None None)
     = Inr ()"
  by (simp add: updateFeatureStatus_def reload_def restore_def loadFeatures_def backup_def
      readFile_def writeFile_def empty_backlog_fs_def featuresPath_def backupPath_def)

text \<open>
  Claim C1, amended. \<open>updateFeatureStatus\<close> never fails with the fatal error of the
  guard. When the list it works on is empty, it returns without an error, does not write
  the feature list, and leaves that file as it was. When it does write the feature list,
  the array written has at least one record.
\<close>

theorem updateFeatureStatus_never_writes_empty:
  assumes "updateFeatureStatus fs clock fid status p summary err = (r, fs')"
  shows "(\<forall>m. r \<noteq> Inl (Critical m)) \<and>
         (reload (backup fs p) clock p = [] \<longrightarrow>
            r = Inr () \<and> featuresPath p \<notin> set (written_during fs fs') \<and>
            files fs' (featuresPath p) = files fs (featuresPath p)) \<and>
         (featuresPath p \<in> set (written_during fs fs') \<longrightarrow>
            (\<exists>recs. recs \<noteq> [] \<and> files fs' (featuresPath p) = Some (Doc (JArr recs))))"
proof -
  let ?W = "reload (backup fs p) clock p"
  from update_cases_files [OF assms]
  consider (unsaved) "fs' = backup fs p" "featuresPath p \<notin> set (written_during fs fs')"
      "files fs' (featuresPath p) = files fs (featuresPath p)"
      "r = Inl TypeError \<or> r = Inl IOError \<or> r = Inr () \<and> find_by_id fid ?W = Inr None"
    | (saved) i where "find_by_id fid ?W = Inr (Some i)" "r = Inr ()"
      "files fs' (featuresPath p) =
         Some (Doc (JArr (map (\<lambda>f. stringified (project (named f)))
                (?W[i := patch status summary err (?W ! i)]))))"
    by blast
  then show ?thesis
  proof cases
    case unsaved
    have "?W = [] \<Longrightarrow> r = Inr ()"
      using assms by (simp add: updateFeatureStatus_def Let_def)
    with unsaved show ?thesis by auto
  next
    case (saved i)
    from find_by_id_Some [OF saved(1)] have ne: "?W \<noteq> []" by auto
    then have "map (\<lambda>f. stringified (project (named f))) (?W[i := patch status summary err (?W ! i)]) \<noteq> []"
      by simp
    with saved ne show ?thesis by blast
  qed
qed

theorem updateFeatureStatus_never_writes_empty_witness:
  "fst (updateFeatureStatus empty_backlog_fs (fixed_clock 0) ''a'' ''verified'' ''proj'' None None)
     = Inr () \<and>
   files (snd (updateFeatureStatus empty_backlog_fs (fixed_clock 0) ''a'' ''verified'' ''proj'' None None))
     (featuresPath ''proj'') = Some (Doc (JArr []))"
proof -
  obtain r fs' where u: "updateFeatureStatus empty_backlog_fs (fixed_clock 0) ''a'' ''verified'' ''proj'' None None = (r, fs')"
    by (cases "updateFeatureStatus empty_backlog_fs (fixed_clock 0) ''a'' ''verified'' ''proj'' None None")
  have e: "reload (backup empty_backlog_fs ''proj'') (fixed_clock 0) ''proj'' = []"
    by (simp add: reload_def restore_def loadFeatures_def backup_def readFile_def writeFile_def
        empty_backlog_fs_def featuresPath_def backupPath_def)
  have f: "files empty_backlog_fs (featuresPath ''proj'') = Some (Doc (JArr []))"
    by (simp add: empty_backlog_fs_def)
  from updateFeatureStatus_never_writes_empty [OF u] e f u show ?thesis by simp
qed

section \<open>Records kept by updateFeatureStatus\<close>

lemma one_feature_update:
  "updateFeatureStatus one_feature_fs (fixed_clock 0) ''a'' ''verified'' ''proj'' None None =
     (Inr (),
      \<lparr>files = [featuresPath ''proj'' \<mapsto>
                  Doc (JArr [JObj [(''id'', JStr ''a''), (''status'', JStr ''verified'')]]),
                backupPath ''proj'' \<mapsto>
                  Doc (JArr [JObj [(''id'', JStr ''a''), (''status'', JStr ''backlog''),
                                  (''title'', JStr ''Login'')]])],
       locked = {}, writes = [featuresPath ''proj'', backupPath ''proj'']\<rparr>)"
  by (simp add: updateFeatureStatus_def one_feature_fs_def backup_def readFile_def writeFile_def
      reload_def restore_def loadFeatures_def ensure_id_def member_def jsget_def or_else_def
      enumerate_eq_zip patch_def featureData_def project_def stringified_def
      required_fields_def optional_fields_def featuresPath_def backupPath_def fun_upd_twist)

lemma backlog_load:
  "loadFeatures backlog_fs ticking_clock ''proj'' =
     [[(''id'', JStr ''a''), (''status'', JStr ''backlog''), (''title'', JStr ''Login'')],
      [(''id'', JStr ''b''), (''status'', JStr ''in_progress''),
       (''steps'', JArr [JNum PosInfinity, JNum NegZero, JNum (Finite 3)]),
       (''error'', JStr ''old'')],
      [(''description'', JStr ''no id''), (''id'', JStr ''feature-2-1700000000002'')]]"
  by (simp add: loadFeatures_def backlog_fs_def readFile_def ensure_id_def member_def
      jsget_def or_else_def synth_id_def ticking_clock_def string_of_nat.simps enumerate_eq_zip
      upt_rec)

lemma backlog_update:
  "updateFeatureStatus backlog_fs ticking_clock ''b'' ''verified'' ''proj'' (Some ''done'') None =
     (Inr (),
      \<lparr>files = [featuresPath ''proj'' \<mapsto>
                  Doc (JArr [JObj [(''id'', JStr ''a''), (''status'', JStr ''backlog'')],
                             JObj [(''id'', JStr ''b''),
                                   (''steps'', JArr [JNull, JNum (Finite 0), JNum (Finite 3)]),
                                   (''status'', JStr ''verified''), (''summary'', JStr ''done'')],
                             JObj [(''id'', JStr ''feature-2-1700000000002''),
                                   (''description'', JStr ''no id'')]]),
                backupPath ''proj'' \<mapsto>
                  Doc (JArr [JObj [(''id'', JStr ''a''), (''status'', JStr ''backlog''),
                                  (''title'', JStr ''Login'')],
                            JObj [(''id'', JStr ''b''), (''status'', JStr ''in_progress''),
                                  (''steps'', JArr [JNum PosInfinity, JNum NegZero, JNum (Finite 3)]),
                                  (''error'', JStr ''old'')],
                            JObj [(''description'', JStr ''no id'')]])],
       locked = {}, writes = [featuresPath ''proj'', backupPath ''proj'']\<rparr>)"
proof -
  have b: "backup backlog_fs ''proj'' =
      backlog_fs\<lparr>files := (files backlog_fs)(backupPath ''proj'' \<mapsto>
                   Doc (JArr [JObj [(''id'', JStr ''a''), (''status'', JStr ''backlog''),
                                  (''title'', JStr ''Login'')],
                            JObj [(''id'', JStr ''b''), (''status'', JStr ''in_progress''),
                                  (''steps'', JArr [JNum PosInfinity, JNum NegZero, JNum (Finite 3)]),
                                  (''error'', JStr ''old'')],
                            JObj [(''description'', JStr ''no id'')]])),
                 writes := [backupPath ''proj'']\<rparr>"
    by (simp add: backup_def backlog_fs_def readFile_def writeFile_def)
  have f: "find_by_id ''b'' (map JObj (loadFeatures backlog_fs ticking_clock ''proj'')) =
      Inr (Some 1)"
    by (simp add: backlog_load member_def jsget_def)
  have l: "featuresPath ''proj'' \<notin> locked backlog_fs" by (simp add: backlog_fs_def)
  show ?thesis
    unfolding updateFeatureStatus_found [OF f l] b backlog_load
    by (simp add: backlog_fs_def patch_def Let_def project_def stringified_def jsget_def
        required_fields_def optional_fields_def fun_upd_twist paths_differ)
qed

lemma stale_backup_update:
  "updateFeatureStatus stale_backup_fs (fixed_clock 0) ''a'' ''verified'' ''proj'' None None =
     (Inr (),
      \<lparr>files = [featuresPath ''proj'' \<mapsto>
                  Doc (JArr [JObj [(''id'', JStr ''a''), (''status'', JStr ''verified'')]]),
                backupPath ''proj'' \<mapsto>
                  Doc (JArr [JObj [(''id'', JStr ''a''), (''status'', JStr ''backlog'')]])],
       locked = {backupPath ''proj''}, writes = [featuresPath ''proj'']\<rparr>)"
  by (simp add: updateFeatureStatus_def stale_backup_fs_def backup_def readFile_def writeFile_def
      reload_def restore_def loadFeatures_def ensure_id_def member_def jsget_def or_else_def
      enumerate_eq_zip patch_def featureData_def project_def stringified_def Let_def
      required_fields_def optional_fields_def featuresPath_def backupPath_def fun_upd_twist)

text \<open>
  Claim C3, as stated, fails where it says that no record present before the call is
  absent afterward: a feature list that holds a \<^verbatim>\<open>null\<close> entry loads as the empty list,
  and when the backup step could not overwrite the backup, the recovery step takes the
  older backup, so that the call replaces a feature list of two features by the one
  feature of the backup.
\<close>

theorem updateFeatureStatus_replaces_unloadable_list:
  "files stale_backup_fs (featuresPath ''proj'') =
     Some (Doc (JArr [JObj [(''id'', JStr ''x'')], JObj [(''id'', JStr ''y'')], JNull])) \<and>
   loadFeatures stale_backup_fs (fixed_clock 0) ''proj'' = [] \<and>
   fst (updateFeatureStatus stale_backup_fs (fixed_clock 0) ''a'' ''verified'' ''proj''
          None None) = Inr () \<and>
   files (snd (updateFeatureStatus stale_backup_fs (fixed_clock 0) ''a'' ''verified'' ''proj''
                 None None)) (featuresPath ''proj'') =
     Some (Doc (JArr [JObj [(''id'', JStr ''a''), (''status'', JStr ''verified'')]]))"
  unfolding stale_backup_update fst_conv snd_conv
  by (simp add: stale_backup_fs_def loadFeatures_def readFile_def ensure_id_def member_def
      enumerate_eq_zip paths_differ)

text \<open>
  Claim C3, amended. A call of \<open>updateFeatureStatus\<close> that writes the feature list writes
  at least as many records as its own \<open>loadFeatures\<close> returned at the start of the call,
  and every record so loaded is written at its position: each of its fifteen saved fields,
  the three patched fields of the updated record apart, holds the value loaded as the
  JSON round trip returns it (an infinite number as \<^verbatim>\<open>null\<close>, negative zero as 0), and an
  id that is a string is kept as it is. What the file held when it did not load is not
  kept. For the backlog of three features, updating the second writes all three.
\<close>

theorem updateFeatureStatus_keeps_loaded_records:
  "(updateFeatureStatus fs clock fid status p summary err = (r, fs') \<and>
    featuresPath p \<in> set (written_during fs fs') \<longrightarrow>
      (\<exists>recs i. files fs' (featuresPath p) = Some (Doc (JArr recs)) \<and>
         length (loadFeatures fs clock p) \<le> length recs \<and>
         (\<forall>j<length (loadFeatures fs clock p). \<forall>k.
            k \<in> set (required_fields @ optional_fields) \<and>
            (j \<noteq> i \<or> k \<notin> {''status'', ''summary'', ''error''}) \<longrightarrow>
            jsget (named (recs ! j)) k =
              map_option reparsed (jsget (loadFeatures fs clock p ! j) k)) \<and>
         (\<forall>j<length (loadFeatures fs clock p). \<forall>s.
            jsget (loadFeatures fs clock p ! j) ''id'' = Some (JStr s) \<longrightarrow>
            jsget (named (recs ! j)) ''id'' = Some (JStr s)))) \<and>
   files (snd (updateFeatureStatus backlog_fs ticking_clock ''b'' ''verified'' ''proj''
                 (Some ''done'') None)) (featuresPath ''proj'') =
     Some (Doc (JArr [JObj [(''id'', JStr ''a''), (''status'', JStr ''backlog'')],
                      JObj [(''id'', JStr ''b''),
                            (''steps'', JArr [JNull, JNum (Finite 0), JNum (Finite 3)]),
                            (''status'', JStr ''verified''), (''summary'', JStr ''done'')],
                      JObj [(''id'', JStr ''feature-2-1700000000002''),
                            (''description'', JStr ''no id'')]]))"
proof (intro conjI impI)
  assume a: "updateFeatureStatus fs clock fid status p summary err = (r, fs') \<and>
    featuresPath p \<in> set (written_during fs fs')"
  let ?L = "loadFeatures fs clock p"
  let ?W = "reload (backup fs p) clock p"
  from a update_cases_files [of fs clock fid status p summary err r fs']
  obtain i where i: "find_by_id fid ?W = Inr (Some i)"
    and f: "files fs' (featuresPath p) =
              Some (Doc (JArr (map (\<lambda>f. stringified (project (named f)))
                (?W[i := patch status summary err (?W ! i)]))))"
    by blast
  let ?recs = "map (\<lambda>f. stringified (project (named f))) (?W[i := patch status summary err (?W ! i)])"
  show "\<exists>recs i. files fs' (featuresPath p) = Some (Doc (JArr recs)) \<and>
         length ?L \<le> length recs \<and>
         (\<forall>j<length ?L. \<forall>k.
            k \<in> set (required_fields @ optional_fields) \<and>
            (j \<noteq> i \<or> k \<notin> {''status'', ''summary'', ''error''}) \<longrightarrow>
            jsget (named (recs ! j)) k = map_option reparsed (jsget (?L ! j) k)) \<and>
         (\<forall>j<length ?L. \<forall>s.
            jsget (?L ! j) ''id'' = Some (JStr s) \<longrightarrow>
            jsget (named (recs ! j)) ''id'' = Some (JStr s))"
  proof (cases "?L = []")
    case True
    with f show ?thesis by simp
  next
    case False
    then have W: "?W = map JObj ?L" by (rule reload_loaded)
    from find_by_id_Some [OF i] W have il: "i < length ?L" by simp
    have len: "length ?L \<le> length ?recs" by (simp add: W)
    have fld: "\<And>j k. j < length ?L \<Longrightarrow> k \<in> set (required_fields @ optional_fields) \<Longrightarrow>
        j \<noteq> i \<or> k \<notin> {''status'', ''summary'', ''error''} \<Longrightarrow>
        jsget (named (?recs ! j)) k = map_option reparsed (jsget (?L ! j) k)"
    proof -
      fix j k assume j: "j < length ?L" and k: "k \<in> set (required_fields @ optional_fields)"
        and jk: "j \<noteq> i \<or> k \<notin> {''status'', ''summary'', ''error''}"
      have "jsget (named (?recs ! j)) k =
          map_option reparsed
            (jsget (named ((map JObj ?L)[i := patch status summary err (JObj (?L ! i))] ! j)) k)"
        using j il k unfolding W by (simp add: jsget_stringified_project del: set_append)
      also have "jsget (named ((map JObj ?L)[i := patch status summary err (JObj (?L ! i))] ! j)) k =
          jsget (?L ! j) k"
        using jk by (auto simp: jsget_patched_list [OF il j])
      finally show "jsget (named (?recs ! j)) k = map_option reparsed (jsget (?L ! j) k)" .
    qed
    have ids: "\<And>j s. j < length ?L \<Longrightarrow> jsget (?L ! j) ''id'' = Some (JStr s) \<Longrightarrow>
        jsget (named (?recs ! j)) ''id'' = Some (JStr s)"
    proof -
      fix j s assume j: "j < length ?L" and s: "jsget (?L ! j) ''id'' = Some (JStr s)"
      have "jsget (named (?recs ! j)) ''id'' = map_option reparsed (jsget (?L ! j) ''id'')"
        by (rule fld [OF j canonical_id]) simp
      with s show "jsget (named (?recs ! j)) ''id'' = Some (JStr s)" by simp
    qed
    from f len fld ids show ?thesis by blast
  qed
next
  show "files (snd (updateFeatureStatus backlog_fs ticking_clock ''b'' ''verified'' ''proj''
                 (Some ''done'') None)) (featuresPath ''proj'') =
     Some (Doc (JArr [JObj [(''id'', JStr ''a''), (''status'', JStr ''backlog'')],
                      JObj [(''id'', JStr ''b''),
                            (''steps'', JArr [JNull, JNum (Finite 0), JNum (Finite 3)]),
                            (''status'', JStr ''verified''), (''summary'', JStr ''done'')],
                      JObj [(''id'', JStr ''feature-2-1700000000002''),
                            (''description'', JStr ''no id'')]]))"
    unfolding backlog_update snd_conv using paths_differ [of "''proj''"] by simp
qed

theorem updateFeatureStatus_keeps_loaded_records_witness:
  "length (loadFeatures backlog_fs ticking_clock ''proj'') = 3 \<and>
   (\<exists>recs. files (snd (updateFeatureStatus backlog_fs ticking_clock ''b'' ''verified'' ''proj''
                          (Some ''done'') None)) (featuresPath ''proj'') =
              Some (Doc (JArr recs)) \<and>
            3 \<le> length recs \<and>
            jsget (named (recs ! 0)) ''id'' = Some (JStr ''a'') \<and>
            jsget (named (recs ! 1)) ''id'' = Some (JStr ''b'') \<and>
            jsget (named (recs ! 2)) ''id'' = Some (JStr ''feature-2-1700000000002''))"
proof -
  let ?u = "updateFeatureStatus backlog_fs ticking_clock ''b'' ''verified'' ''proj''
              (Some ''done'') None"
  have l: "length (loadFeatures backlog_fs ticking_clock ''proj'') = 3"
    by (simp add: backlog_load)
  have u: "?u = (fst ?u, snd ?u)" by simp
  have w: "featuresPath ''proj'' \<in> set (written_during backlog_fs (snd ?u))"
    unfolding backlog_update snd_conv by (simp add: written_during_def backlog_fs_def)
  from updateFeatureStatus_keeps_loaded_records
    [of backlog_fs ticking_clock "''b''" "''verified''" "''proj''" "Some ''done''" None
        "fst ?u" "snd ?u"] u w
  obtain recs where recs: "files (snd ?u) (featuresPath ''proj'') = Some (Doc (JArr recs))"
      "length (loadFeatures backlog_fs ticking_clock ''proj'') \<le> length recs"
      "\<forall>j<length (loadFeatures backlog_fs ticking_clock ''proj''). \<forall>s.
            jsget (loadFeatures backlog_fs ticking_clock ''proj'' ! j) ''id'' = Some (JStr s) \<longrightarrow>
            jsget (named (recs ! j)) ''id'' = Some (JStr s)"
    by blast
  from recs(3) have "jsget (named (recs ! 0)) ''id'' = Some (JStr ''a'')"
    "jsget (named (recs ! 1)) ''id'' = Some (JStr ''b'')"
    "jsget (named (recs ! 2)) ''id'' = Some (JStr ''feature-2-1700000000002'')"
    by (simp_all add: backlog_load jsget_def)
  with recs(1,2) l show ?thesis by auto
qed

section \<open>An id that is not found\<close>

lemma updateFeatureStatus_not_found:
  assumes "find_by_id fid (reload (backup fs p) clock p) = Inr None"
  shows "updateFeatureStatus fs clock fid status p summary err = (Inr (), backup fs p) \<and>
         files (backup fs p) (featuresPath p) = files fs (featuresPath p) \<and>
         featuresPath p \<notin> set (written_during fs (backup fs p))"
  using assms
  by (simp add: updateFeatureStatus_def Let_def backup_files_features not_written_backup)

text \<open>
  Claim C9 holds whenever the lookup completes (lemma \<open>updateFeatureStatus_not_found\<close>),
  but not for every call: a feature list with a \<^verbatim>\<open>null\<close> entry loads as the empty list,
  the recovery step then takes the backup (a copy of the same text) with the entry as it
  is, and the lookup throws a TypeError on it. The id matches no record, and yet an error
  is raised to the caller.
\<close>

theorem updateFeatureStatus_null_record_throws:
  "reload (backup null_record_fs ''proj'') (fixed_clock 0) ''proj'' = [JNull] \<and>
   updateFeatureStatus null_record_fs (fixed_clock 0) ''a'' ''verified'' ''proj'' None None =
     (Inl TypeError, backup null_record_fs ''proj'')"
  by (simp add: updateFeatureStatus_def reload_def restore_def loadFeatures_def backup_def
      readFile_def writeFile_def null_record_fs_def featuresPath_def backupPath_def
      ensure_id_def member_def enumerate_eq_zip Let_def)

section \<open>Recovery from the backup\<close>

lemma restore_from_backup:
  "files fs (backupPath p) = Some (Doc (JArr bs)) \<Longrightarrow> bs \<noteq> [] \<Longrightarrow>
   loadFeatures fs clock p = [] \<Longrightarrow> reload fs clock p = bs"
  by (simp add: reload_def restore_def readFile_def)

text \<open>
  Claim C2 fails on the code: when the feature list has been replaced by an empty array
  and the backup holds a record, the backup step of the call first overwrites the backup
  with the empty array, so nothing is restored, the id is not found, and the record of
  the backup is lost.
\<close>

theorem updateFeatureStatus_backup_overwritten:
  "reload (backup emptied_fs ''proj'') (fixed_clock 0) ''proj'' = [] \<and>
   updateFeatureStatus emptied_fs (fixed_clock 0) ''a'' ''verified'' ''proj'' None None =
     (Inr (),
      \<lparr>files = [featuresPath ''proj'' \<mapsto> Doc (JArr []), backupPath ''proj'' \<mapsto> Doc (JArr [])],
       locked = {}, writes = [backupPath ''proj'']\<rparr>)"
  by (simp add: updateFeatureStatus_def reload_def restore_def loadFeatures_def backup_def
      readFile_def writeFile_def emptied_fs_def featuresPath_def backupPath_def Let_def)

section \<open>An update followed by a load\<close>

lemma those_ensure_id_null:
  "JNull \<in> set xs \<Longrightarrow> those (map (ensure_id clock) (List.enumerate n xs)) = None"
  by (induction xs arbitrary: n) (auto simp: ensure_id_def member_def split: option.splits)

lemma loadFeatures_cases:
  obtains (nothing) "\<And>c. loadFeatures fs c p = []"
  | (loaded) xs where "files fs (featuresPath p) = Some (Doc (JArr xs))" "JNull \<notin> set xs"
proof (cases "\<exists>xs. files fs (featuresPath p) = Some (Doc (JArr xs)) \<and> JNull \<notin> set xs")
  case True
  then show ?thesis using loaded by blast
next
  case False
  have "\<And>c. loadFeatures fs c p = []"
  proof -
    fix c
    show "loadFeatures fs c p = []"
    proof (cases "\<exists>xs. files fs (featuresPath p) = Some (Doc (JArr xs))")
      case True
      then obtain xs where xs: "files fs (featuresPath p) = Some (Doc (JArr xs))" by blast
      with False have "JNull \<in> set xs" by blast
      from those_ensure_id_null [OF this] xs show ?thesis by (simp add: loadFeatures_Doc)
    next
      case False
      then show ?thesis
        by (auto simp: loadFeatures_def readFile_def split: option.splits content.splits json.splits)
    qed
  qed
  then show ?thesis by (rule nothing)
qed

lemma loadFeatures_clocks:
  "length (loadFeatures fs c p) = length (loadFeatures fs c' p) \<and>
   (\<forall>j<length (loadFeatures fs c p).
      (\<forall>k. k \<noteq> ''id'' \<longrightarrow>
         jsget (loadFeatures fs c p ! j) k = jsget (loadFeatures fs c' p ! j) k) \<and>
      (jsget (loadFeatures fs c p ! j) ''id'' = jsget (loadFeatures fs c' p ! j) ''id'' \<or>
       jsget (loadFeatures fs c p ! j) ''id'' = Some (JStr (synth_id j (c j))) \<and>
       jsget (loadFeatures fs c' p ! j) ''id'' = Some (JStr (synth_id j (c' j)))))"
proof (cases fs p rule: loadFeatures_cases)
  case nothing
  then show ?thesis by simp
next
  case (loaded xs)
  have len: "\<And>d. length (loadFeatures fs d p) = length xs"
    using loaded by (simp add: loadFeatures_Doc those_ensure_id)
  have nth: "\<And>d j. j < length xs \<Longrightarrow> loadFeatures fs d p ! j =
       AList.update ''id'' (or_else (jsget (named (xs ! j)) ''id'') (JStr (synth_id j (d j))))
         (spread (xs ! j))"
    using loadFeatures_nth [OF loaded] by blast
  show ?thesis
  proof (intro conjI allI impI)
    show "length (loadFeatures fs c p) = length (loadFeatures fs c' p)" by (simp add: len)
  next
    fix j k assume "j < length (loadFeatures fs c p)" and "k \<noteq> ''id''"
    then show "jsget (loadFeatures fs c p ! j) k = jsget (loadFeatures fs c' p ! j) k"
      by (simp add: len nth jsget_update)
  next
    fix j assume "j < length (loadFeatures fs c p)"
    then have j: "j < length xs" by (simp add: len)
    show "jsget (loadFeatures fs c p ! j) ''id'' = jsget (loadFeatures fs c' p ! j) ''id'' \<or>
       jsget (loadFeatures fs c p ! j) ''id'' = Some (JStr (synth_id j (c j))) \<and>
       jsget (loadFeatures fs c' p ! j) ''id'' = Some (JStr (synth_id j (c' j)))"
    proof (cases "truthy (jsget (named (xs ! j)) ''id'')")
      case True
      then obtain x where "jsget (named (xs ! j)) ''id'' = Some x"
        by (cases "jsget (named (xs ! j)) ''id''") auto
      with True show ?thesis by (simp add: nth [OF j] jsget_update or_else_truthy)
    next
      case False
      then show ?thesis by (simp add: nth [OF j] jsget_update or_else_falsy)
    qed
  qed
qed

lemma loadFeatures_written:
  assumes "files fs (featuresPath p) =
      Some (Doc (JArr (map (\<lambda>f. stringified (project (named f))) ws)))"
  shows "length (loadFeatures fs c p) = length ws \<and>
     (\<forall>j<length ws. \<forall>k. jsget (loadFeatures fs c p ! j) k =
        (if k = ''id''
         then Some (or_else (jsget (named (stringified (project (named (ws ! j))))) ''id'')
                      (JStr (synth_id j (c j))))
         else jsget (named (stringified (project (named (ws ! j))))) k))"
proof -
  let ?recs = "map (\<lambda>f. stringified (project (named f))) ws"
  have nn: "JNull \<notin> set ?recs" by (auto simp: stringified_def)
  have sp: "\<And>f. spread (stringified (project (named f))) = named (stringified (project (named f)))"
    by (simp add: stringified_def)
  have len: "length (loadFeatures fs c p) = length ws"
    using assms nn by (simp add: loadFeatures_Doc those_ensure_id)
  moreover have "\<forall>j<length ws. \<forall>k. jsget (loadFeatures fs c p ! j) k =
        (if k = ''id''
         then Some (or_else (jsget (named (stringified (project (named (ws ! j))))) ''id'')
                      (JStr (synth_id j (c j))))
         else jsget (named (stringified (project (named (ws ! j))))) k)"
  proof (intro allI impI)
    fix j k assume j: "j < length ws"
    then have "j < length ?recs" by simp
    from loadFeatures_nth [OF assms nn this, of c] j
    show "jsget (loadFeatures fs c p ! j) k =
        (if k = ''id''
         then Some (or_else (jsget (named (stringified (project (named (ws ! j))))) ''id'')
                      (JStr (synth_id j (c j))))
         else jsget (named (stringified (project (named (ws ! j))))) k)"
      by (simp add: jsget_update sp)
  qed
  ultimately show ?thesis by blast
qed

lemma backlog_reload:
  "loadFeatures
     (snd (updateFeatureStatus backlog_fs ticking_clock ''b'' ''verified'' ''proj''
             (Some ''done'') None))
     (fixed_clock 7) ''proj'' =
     [[(''id'', JStr ''a''), (''status'', JStr ''backlog'')],
      [(''id'', JStr ''b''), (''steps'', JArr [JNull, JNum (Finite 0), JNum (Finite 3)]),
       (''status'', JStr ''verified''), (''summary'', JStr ''done'')],
      [(''id'', JStr ''feature-2-1700000000002''), (''description'', JStr ''no id'')]]"
  unfolding backlog_update snd_conv
  by (simp add: loadFeatures_def readFile_def ensure_id_def member_def jsget_def or_else_def
      enumerate_eq_zip upt_rec paths_differ)

lemma one_feature_load:
  "loadFeatures one_feature_fs (fixed_clock 0) ''proj'' =
     [[(''id'', JStr ''a''), (''status'', JStr ''backlog''), (''title'', JStr ''Login'')]]"
  by (simp add: one_feature_fs_def loadFeatures_def readFile_def ensure_id_def member_def
      jsget_def or_else_def enumerate_eq_zip)

lemma one_feature_reload:
  "loadFeatures
     (snd (updateFeatureStatus one_feature_fs (fixed_clock 0) ''a'' ''verified'' ''proj''
             None None))
     (fixed_clock 0) ''proj'' = [[(''id'', JStr ''a''), (''status'', JStr ''verified'')]]"
  unfolding one_feature_update snd_conv
  by (simp add: loadFeatures_def readFile_def ensure_id_def member_def jsget_def or_else_def
      enumerate_eq_zip featuresPath_def backupPath_def)

lemma updateFeatureStatus_stale_id:
  "jsget (loadFeatures backlog_fs (fixed_clock 5) ''proj'' ! 2) ''id'' =
     Some (JStr ''feature-2-5'') \<and>
   updateFeatureStatus backlog_fs ticking_clock ''feature-2-5'' ''verified'' ''proj'' None None =
     (Inr (), backup backlog_fs ''proj'')"
proof -
  have "jsget (loadFeatures backlog_fs (fixed_clock 5) ''proj'' ! 2) ''id'' =
     Some (JStr ''feature-2-5'')"
    by (simp add: loadFeatures_def backlog_fs_def readFile_def ensure_id_def member_def
      jsget_def or_else_def synth_id_def fixed_clock_def string_of_nat.simps enumerate_eq_zip
      upt_rec)
  moreover have "find_by_id ''feature-2-5''
      (reload (backup backlog_fs ''proj'') ticking_clock ''proj'') = Inr None"
    by (simp add: reload_backup restore_nonempty backlog_load member_def jsget_def)
  ultimately show ?thesis
    using updateFeatureStatus_not_found by blast
qed

text \<open>
  Claim C8, as stated, fails: the records are written through a projection onto fifteen
  field names, so a field outside them is not unchanged by an update, it is dropped. Here
  the feature has a \<^verbatim>\<open>title\<close> before the update and none after it.
\<close>

theorem updateFeatureStatus_drops_other_fields:
  "jsget (loadFeatures one_feature_fs (fixed_clock 0) ''proj'' ! 0) ''title'' =
     Some (JStr ''Login'') \<and>
   jsget (loadFeatures
            (snd (updateFeatureStatus one_feature_fs (fixed_clock 0) ''a'' ''verified'' ''proj''
                    None None))
            (fixed_clock 0) ''proj'' ! 0) ''title'' = None"
  unfolding one_feature_load one_feature_reload by (simp add: jsget_def)

text \<open>
  Claim C8, amended. When the lookup of the call finds the given id in the list that the
  call itself loads (the first such feature, at index \<open>i\<close>) and the feature list can be
  written, \<open>updateFeatureStatus\<close> succeeds and any later load returns as many features as
  any load before the call, where in feature \<open>i\<close> the status is the new one, the summary
  is the given one when it is given and not empty, the error is the given one when it is
  given and not empty and is absent otherwise, and the id is the given id. Every other one
  of the fifteen saved fields except the id, of this and of every other feature, is what
  any load before the call returned, passed through the JSON round trip (an infinite
  number becomes \<^verbatim>\<open>null\<close>, negative zero becomes 0, everything else is unchanged); every
  field outside the fifteen is absent. The id of a feature is the one the load of the
  call gave it, passed through the round trip, and a fresh one if that is falsy; the load
  of the call and a load before it agree on an id unless both assigned it, each with its
  own time. For the backlog of three features, updating the second with a summary gives
  the three features shown.
\<close>

theorem updateFeatureStatus_then_load:
  "(find_by_id fid (map JObj (loadFeatures fs clock p)) = Inr (Some i) \<and>
    featuresPath p \<notin> locked fs \<and>
    updateFeatureStatus fs clock fid status p summary err = (r, fs') \<longrightarrow>
      r = Inr () \<and>
      length (loadFeatures fs' clock' p) = length (loadFeatures fs clock0 p) \<and>
      (\<forall>j<length (loadFeatures fs clock0 p). \<forall>k.
         jsget (loadFeatures fs' clock' p ! j) k =
           (if k \<notin> set (required_fields @ optional_fields) then None
            else if k = ''id'' then
              Some (or_else (map_option reparsed (jsget (loadFeatures fs clock p ! j) ''id''))
                      (JStr (''feature-'' @ string_of_nat j @ ''-'' @ string_of_nat (clock' j))))
            else if j = i \<and> k = ''status'' then Some (JStr status)
            else if j = i \<and> k = ''summary'' \<and> given summary then map_option JStr summary
            else if j = i \<and> k = ''error'' then (if given err then map_option JStr err else None)
            else map_option reparsed (jsget (loadFeatures fs clock0 p ! j) k))) \<and>
      (\<forall>j<length (loadFeatures fs clock0 p).
         jsget (loadFeatures fs clock p ! j) ''id'' = jsget (loadFeatures fs clock0 p ! j) ''id'' \<or>
         jsget (loadFeatures fs clock p ! j) ''id'' =
           Some (JStr (''feature-'' @ string_of_nat j @ ''-'' @ string_of_nat (clock j))) \<and>
         jsget (loadFeatures fs clock0 p ! j) ''id'' =
           Some (JStr (''feature-'' @ string_of_nat j @ ''-'' @ string_of_nat (clock0 j)))) \<and>
      jsget (loadFeatures fs' clock' p ! i) ''id'' = Some (JStr fid)) \<and>
   loadFeatures
     (snd (updateFeatureStatus backlog_fs ticking_clock ''b'' ''verified'' ''proj''
             (Some ''done'') None))
     (fixed_clock 7) ''proj'' =
     [[(''id'', JStr ''a''), (''status'', JStr ''backlog'')],
      [(''id'', JStr ''b''), (''steps'', JArr [JNull, JNum (Finite 0), JNum (Finite 3)]),
       (''status'', JStr ''verified''), (''summary'', JStr ''done'')],
      [(''id'', JStr ''feature-2-1700000000002''), (''description'', JStr ''no id'')]]"
proof (intro conjI impI)
  assume a: "find_by_id fid (map JObj (loadFeatures fs clock p)) = Inr (Some i) \<and>
    featuresPath p \<notin> locked fs \<and>
    updateFeatureStatus fs clock fid status p summary err = (r, fs')"
  let ?L = "loadFeatures fs clock p"
  let ?K = "loadFeatures fs clock0 p"
  let ?L' = "loadFeatures fs' clock' p"
  let ?W' = "(map JObj ?L)[i := patch status summary err (JObj (?L ! i))]"
  from a have found: "find_by_id fid (map JObj ?L) = Inr (Some i)"
    and unlocked: "featuresPath p \<notin> locked fs"
    and u: "updateFeatureStatus fs clock fid status p summary err = (r, fs')" by simp_all
  from find_by_id_Some [OF found] obtain ps where i: "i < length ?L"
    and fid: "jsget (?L ! i) ''id'' = Some (JStr fid)" by auto
  from updateFeatureStatus_found [OF found unlocked, of status summary err] u
  have r: "r = Inr ()"
    and fs': "fs' = (backup fs p)\<lparr>files := (files (backup fs p))(featuresPath p \<mapsto>
          Doc (JArr (map (\<lambda>f. stringified (project (named f))) ?W'))),
        writes := featuresPath p # writes (backup fs p)\<rparr>"
    by simp_all
  from fs' have f: "files fs' (featuresPath p) =
      Some (Doc (JArr (map (\<lambda>f. stringified (project (named f))) ?W')))" by simp
  note lw = loadFeatures_written [OF f, of clock']
  note lc = loadFeatures_clocks [of fs clock p clock0]
  from lc have len0: "length ?K = length ?L" by simp
  from lw have len': "length ?L' = length ?L" by simp
  have W'j: "\<And>j k. j < length ?L \<Longrightarrow>
      jsget (named (stringified (project (named (?W' ! j))))) k =
        (if k \<in> set (required_fields @ optional_fields)
         then map_option reparsed
             (if j = i \<and> k = ''status'' then Some (JStr status)
              else if j = i \<and> k = ''summary'' \<and> given summary then map_option JStr summary
              else if j = i \<and> k = ''error'' then (if given err then map_option JStr err else None)
              else jsget (?L ! j) k)
         else None)"
    by (simp only: jsget_stringified_project jsget_patched_list [OF i])
  have sumr: "map_option reparsed (map_option JStr summary) = map_option JStr summary"
    by (cases summary) simp_all
  have errr: "map_option reparsed (map_option JStr err) = map_option JStr err"
    by (cases err) simp_all
  show "r = Inr ()" by (rule r)
  show "length ?L' = length ?K" by (simp add: len' len0)
  show "\<forall>j<length ?K. \<forall>k.
         jsget (?L' ! j) k =
           (if k \<notin> set (required_fields @ optional_fields) then None
            else if k = ''id'' then
              Some (or_else (map_option reparsed (jsget (?L ! j) ''id''))
                      (JStr (''feature-'' @ string_of_nat j @ ''-'' @ string_of_nat (clock' j))))
            else if j = i \<and> k = ''status'' then Some (JStr status)
            else if j = i \<and> k = ''summary'' \<and> given summary then map_option JStr summary
            else if j = i \<and> k = ''error'' then (if given err then map_option JStr err else None)
            else map_option reparsed (jsget (?K ! j) k))"
  proof (intro allI impI)
    fix j k assume "j < length ?K"
    then have j: "j < length ?L" by (simp add: len0)
    then have jw: "j < length ?W'" by simp
    from lc j have k0: "k \<noteq> ''id'' \<Longrightarrow> jsget (?L ! j) k = jsget (?K ! j) k" by blast
    show "jsget (?L' ! j) k =
           (if k \<notin> set (required_fields @ optional_fields) then None
            else if k = ''id'' then
              Some (or_else (map_option reparsed (jsget (?L ! j) ''id''))
                      (JStr (''feature-'' @ string_of_nat j @ ''-'' @ string_of_nat (clock' j))))
            else if j = i \<and> k = ''status'' then Some (JStr status)
            else if j = i \<and> k = ''summary'' \<and> given summary then map_option JStr summary
            else if j = i \<and> k = ''error'' then (if given err then map_option JStr err else None)
            else map_option reparsed (jsget (?K ! j) k))"
    proof (cases "k = ''id''")
      case True
      from lw jw have "jsget (?L' ! j) ''id'' =
          Some (or_else (jsget (named (stringified (project (named (?W' ! j))))) ''id'')
                  (JStr (synth_id j (clock' j))))"
        by simp
      then show ?thesis
        using True canonical_id
        by (simp add: W'j [OF j] synth_id_def del: set_append)
    next
      case False
      from lw jw False have "jsget (?L' ! j) k =
          jsget (named (stringified (project (named (?W' ! j))))) k"
        by simp
      then show ?thesis
        using False k0 by (simp add: W'j [OF j] sumr errr del: set_append)
    qed
  qed
  show "\<forall>j<length ?K.
         jsget (?L ! j) ''id'' = jsget (?K ! j) ''id'' \<or>
         jsget (?L ! j) ''id'' =
           Some (JStr (''feature-'' @ string_of_nat j @ ''-'' @ string_of_nat (clock j))) \<and>
         jsget (?K ! j) ''id'' =
           Some (JStr (''feature-'' @ string_of_nat j @ ''-'' @ string_of_nat (clock0 j)))"
    using lc by (simp add: len0 synth_id_def)
  show "jsget (?L' ! i) ''id'' = Some (JStr fid)"
  proof -
    from i have iw: "i < length ?W'" by simp
    have "?L ! i \<in> set ?L" using i by simp
    then have "truthy (jsget (?L ! i) ''id'')" by (rule loadFeatures_truthy_ids)
    with fid have t: "truthy (Some (JStr fid))" by simp
    from lw iw have "jsget (?L' ! i) ''id'' =
          Some (or_else (jsget (named (stringified (project (named (?W' ! i))))) ''id'')
                  (JStr (synth_id i (clock' i))))"
      by simp
    then show ?thesis
      using canonical_id t
      by (simp add: W'j [OF i] fid or_else_truthy del: set_append truthy.simps)
  qed
next
  show "loadFeatures
     (snd (updateFeatureStatus backlog_fs ticking_clock ''b'' ''verified'' ''proj''
             (Some ''done'') None))
     (fixed_clock 7) ''proj'' =
     [[(''id'', JStr ''a''), (''status'', JStr ''backlog'')],
      [(''id'', JStr ''b''), (''steps'', JArr [JNull, JNum (Finite 0), JNum (Finite 3)]),
       (''status'', JStr ''verified''), (''summary'', JStr ''done'')],
      [(''id'', JStr ''feature-2-1700000000002''), (''description'', JStr ''no id'')]]"
    by (rule backlog_reload)
qed

theorem updateFeatureStatus_then_load_witness:
  "jsget (loadFeatures
            (snd (updateFeatureStatus backlog_fs ticking_clock ''b'' ''verified'' ''proj''
                    (Some ''done'') None))
            (fixed_clock 7) ''proj'' ! 1) ''status'' = Some (JStr ''verified'') \<and>
   jsget (loadFeatures
            (snd (updateFeatureStatus backlog_fs ticking_clock ''b'' ''verified'' ''proj''
                    (Some ''done'') None))
            (fixed_clock 7) ''proj'' ! 1) ''steps'' =
     Some (JArr [JNull, JNum (Finite 0), JNum (Finite 3)]) \<and>
   jsget (loadFeatures
            (snd (updateFeatureStatus backlog_fs ticking_clock ''b'' ''verified'' ''proj''
                    (Some ''done'') None))
            (fixed_clock 7) ''proj'' ! 1) ''error'' = None \<and>
   jsget (loadFeatures
            (snd (updateFeatureStatus backlog_fs ticking_clock ''b'' ''verified'' ''proj''
                    (Some ''done'') None))
            (fixed_clock 7) ''proj'' ! 0) ''title'' = None \<and>
   jsget (loadFeatures
            (snd (updateFeatureStatus backlog_fs ticking_clock ''b'' ''verified'' ''proj''
                    (Some ''done'') None))
            (fixed_clock 7) ''proj'' ! 1) ''id'' = Some (JStr ''b'')"
proof -
  let ?u = "updateFeatureStatus backlog_fs ticking_clock ''b'' ''verified'' ''proj''
              (Some ''done'') None"
  let ?A = "loadFeatures (snd ?u) (fixed_clock 7) ''proj''"
  have l5: "loadFeatures backlog_fs (fixed_clock 5) ''proj'' =
     [[(''id'', JStr ''a''), (''status'', JStr ''backlog''), (''title'', JStr ''Login'')],
      [(''id'', JStr ''b''), (''status'', JStr ''in_progress''),
       (''steps'', JArr [JNum PosInfinity, JNum NegZero, JNum (Finite 3)]),
       (''error'', JStr ''old'')],
      [(''description'', JStr ''no id''), (''id'', JStr ''feature-2-5'')]]"
    by (simp add: loadFeatures_def backlog_fs_def readFile_def ensure_id_def member_def
      jsget_def or_else_def synth_id_def fixed_clock_def string_of_nat.simps enumerate_eq_zip
      upt_rec)
  have f: "find_by_id ''b'' (map JObj (loadFeatures backlog_fs ticking_clock ''proj'')) =
      Inr (Some 1)"
    by (simp add: backlog_load member_def jsget_def)
  have l: "featuresPath ''proj'' \<notin> locked backlog_fs" by (simp add: backlog_fs_def)
  have u: "?u = (fst ?u, snd ?u)" by simp
  from updateFeatureStatus_then_load
    [of "''b''" backlog_fs ticking_clock "''proj''" 1 "''verified''" "Some ''done''" None
        "fst ?u" "snd ?u" "fixed_clock 7" "fixed_clock 5"] f l u
  have flds: "\<forall>j<length (loadFeatures backlog_fs (fixed_clock 5) ''proj''). \<forall>k.
         jsget (?A ! j) k =
           (if k \<notin> set (required_fields @ optional_fields) then None
            else if k = ''id'' then
              Some (or_else (map_option reparsed
                               (jsget (loadFeatures backlog_fs ticking_clock ''proj'' ! j) ''id''))
                      (JStr (''feature-'' @ string_of_nat j @ ''-'' @
                             string_of_nat (fixed_clock 7 j))))
            else if j = 1 \<and> k = ''status'' then Some (JStr ''verified'')
            else if j = 1 \<and> k = ''summary'' \<and> given (Some ''done'')
              then map_option JStr (Some ''done'')
            else if j = 1 \<and> k = ''error''
              then (if given None then map_option JStr None else None)
            else map_option reparsed (jsget (loadFeatures backlog_fs (fixed_clock 5) ''proj'' ! j) k))"
    and idb: "jsget (?A ! 1) ''id'' = Some (JStr ''b'')"
    by blast+
  have k: "''status'' \<in> set (required_fields @ optional_fields)"
    "''steps'' \<in> set (required_fields @ optional_fields)"
    "''error'' \<in> set (required_fields @ optional_fields)"
    "''title'' \<notin> set (required_fields @ optional_fields)"
    by (simp_all add: required_fields_def optional_fields_def)
  from flds have one: "\<forall>k. jsget (?A ! 1) k =
           (if k \<notin> set (required_fields @ optional_fields) then None
            else if k = ''id'' then
              Some (or_else (map_option reparsed
                               (jsget (loadFeatures backlog_fs ticking_clock ''proj'' ! 1) ''id''))
                      (JStr (''feature-'' @ string_of_nat 1 @ ''-'' @
                             string_of_nat (fixed_clock 7 1))))
            else if k = ''status'' then Some (JStr ''verified'')
            else if k = ''summary'' \<and> given (Some ''done'')
              then map_option JStr (Some ''done'')
            else if k = ''error''
              then (if given None then map_option JStr None else None)
            else map_option reparsed (jsget (loadFeatures backlog_fs (fixed_clock 5) ''proj'' ! 1) k))"
    by (simp add: l5)
  from flds have zero: "jsget (?A ! 0) ''title'' = None"
    using k(4) by (simp add: l5 del: set_append)
  from one k have "jsget (?A ! 1) ''status'' = Some (JStr ''verified'')"
    "jsget (?A ! 1) ''steps'' = Some (JArr [JNull, JNum (Finite 0), JNum (Finite 3)])"
    "jsget (?A ! 1) ''error'' = None"
    by (simp_all add: l5 jsget_def del: set_append)
  with zero idb show ?thesis by simp
qed

section \<open>Worktree information\<close>

lemma jsget_patch_worktree:
  "jsget (named (patch_worktree worktreePath branchName (JObj ps))) k =
     (if k = ''worktreePath'' then (if given worktreePath then Some (nullable worktreePath) else None)
      else if k = ''branchName'' then (if given worktreePath then Some (nullable branchName) else None)
      else jsget ps k)"
  by (simp add: patch_worktree_def jsget_update jsget_delete)

lemma updateFeatureWorktree_found:
  assumes "find_by_id fid (map JObj (loadFeatures fs clock p)) = Inr (Some i)"
    and "featuresPath p \<notin> locked fs"
  shows "updateFeatureWorktree fs clock fid p worktreePath branchName =
     (Inr (),
      fs\<lparr>files := (files fs)(featuresPath p \<mapsto>
          Doc (JArr (map (\<lambda>f. stringified (project (named f)))
            ((map JObj (loadFeatures fs clock p))
               [i := patch_worktree worktreePath branchName (JObj (loadFeatures fs clock p ! i))])))),
        writes := featuresPath p # writes fs\<rparr>)"
proof -
  let ?L = "loadFeatures fs clock p"
  let ?W' = "(map JObj ?L)[i := patch_worktree worktreePath branchName (JObj (?L ! i))]"
  from find_by_id_Some [OF assms(1)] have i: "i < length ?L" by simp
  then have ne0: "?L \<noteq> []" by auto
  have "patch_worktree worktreePath branchName (JObj (?L ! i)) \<noteq> JNull"
    by (simp add: patch_worktree_def)
  then have "JNull \<notin> set ?W'"
    using set_update_subset_insert
      [of "map JObj ?L" i "patch_worktree worktreePath branchName (JObj (?L ! i))"]
    by auto
  from those_featureData [OF this]
  have t: "those (map featureData ?W') = Some (map (\<lambda>f. project (named f)) ?W')" .
  have w: "\<And>c. writeFile fs (featuresPath p) c =
      Some (fs\<lparr>files := (files fs)(featuresPath p \<mapsto> c),
                writes := featuresPath p # writes fs\<rparr>)"
    using assms(2) by (simp add: writeFile_def)
  show ?thesis
    unfolding updateFeatureWorktree_def Let_def
    using assms(1) i ne0 t by (simp add: w comp_def)
qed

lemma updateFeatureWorktree_not_found:
  "loadFeatures fs clock p = [] \<or>
   find_by_id fid (map JObj (loadFeatures fs clock p)) = Inr None \<Longrightarrow>
   updateFeatureWorktree fs clock fid p worktreePath branchName = (Inr (), fs)"
  by (auto simp: updateFeatureWorktree_def Let_def)

lemma one_feature_set_worktree:
  "updateFeatureWorktree one_feature_fs (fixed_clock 0) ''a'' ''proj'' (Some ''/wt'') (Some ''feat'') =
     (Inr (),
      \<lparr>files = [featuresPath ''proj'' \<mapsto>
                  Doc (JArr [JObj [(''id'', JStr ''a''), (''status'', JStr ''backlog''),
                                   (''worktreePath'', JStr ''/wt''), (''branchName'', JStr ''feat'')]])],
       locked = {}, writes = [featuresPath ''proj'']\<rparr>)"
  by (simp add: updateFeatureWorktree_def one_feature_fs_def readFile_def writeFile_def
      loadFeatures_def ensure_id_def member_def jsget_def or_else_def Let_def
      enumerate_eq_zip patch_worktree_def nullable_def featureData_def project_def stringified_def
      required_fields_def optional_fields_def featuresPath_def)

text \<open>
  Claim C7, as stated, fails for a worktree path that is not \<^verbatim>\<open>null\<close> but empty: the
  test is \<^verbatim>\<open>if (worktreePath)\<close>, so the empty string clears both fields instead of
  setting them. Here both fields were set by a first call, and a second call with the
  empty path and a branch name leaves the persisted record without either.
\<close>

theorem updateFeatureWorktree_empty_path_clears:
  "updateFeatureWorktree
     (snd (updateFeatureWorktree one_feature_fs (fixed_clock 0) ''a'' ''proj''
             (Some ''/wt'') (Some ''feat'')))
     (fixed_clock 0) ''a'' ''proj'' (Some '''') (Some ''feat'') =
     (Inr (),
      \<lparr>files = [featuresPath ''proj'' \<mapsto>
                  Doc (JArr [JObj [(''id'', JStr ''a''), (''status'', JStr ''backlog'')]])],
       locked = {}, writes = [featuresPath ''proj'', featuresPath ''proj'']\<rparr>)"
  unfolding one_feature_set_worktree snd_conv
  by (simp add: updateFeatureWorktree_def readFile_def writeFile_def
      loadFeatures_def ensure_id_def member_def jsget_def or_else_def Let_def
      enumerate_eq_zip patch_worktree_def nullable_def featureData_def project_def stringified_def
      required_fields_def optional_fields_def featuresPath_def)

text \<open>
  Claim C7, amended. When the loaded backlog has a feature with the given id (at index
  \<open>i\<close>) and the feature list can be written, \<open>updateFeatureWorktree\<close> succeeds and
  writes as many records as were loaded; with a worktree path that is a non-empty string,
  record \<open>i\<close> has both \<^verbatim>\<open>worktreePath\<close> (the path) and \<^verbatim>\<open>branchName\<close> (the branch name
  given, \<^verbatim>\<open>null\<close> when it is \<^verbatim>\<open>null\<close>); with a worktree path that is \<^verbatim>\<open>null\<close> or empty,
  record \<open>i\<close> has neither. Either way the record never has one of the two without the
  other, whatever it held before; in particular a call with \<^verbatim>\<open>null\<close> after a call that set
  them leaves both absent.
\<close>

theorem updateFeatureWorktree_sets_or_clears_both:
  assumes "find_by_id fid (map JObj (loadFeatures fs clock p)) = Inr (Some i)"
    and "featuresPath p \<notin> locked fs"
    and "updateFeatureWorktree fs clock fid p worktreePath branchName = (r, fs')"
  shows "r = Inr () \<and>
     (\<exists>recs. files fs' (featuresPath p) = Some (Doc (JArr recs)) \<and>
        length recs = length (loadFeatures fs clock p) \<and>
        (given worktreePath \<longrightarrow>
           jsget (named (recs ! i)) ''worktreePath'' = Some (nullable worktreePath) \<and>
           jsget (named (recs ! i)) ''branchName'' = Some (nullable branchName)) \<and>
        (\<not> given worktreePath \<longrightarrow>
           jsget (named (recs ! i)) ''worktreePath'' = None \<and>
           jsget (named (recs ! i)) ''branchName'' = None))"
proof -
  let ?L = "loadFeatures fs clock p"
  let ?W' = "(map JObj ?L)[i := patch_worktree worktreePath branchName (JObj (?L ! i))]"
  let ?recs = "map (\<lambda>f. stringified (project (named f))) ?W'"
  from find_by_id_Some [OF assms(1)] have i: "i < length ?L" by simp
  from updateFeatureWorktree_found [OF assms(1,2), of worktreePath branchName] assms(3)
  have r: "r = Inr ()" and f: "files fs' (featuresPath p) = Some (Doc (JArr ?recs))"
    by auto
  have k: "''worktreePath'' \<in> set (required_fields @ optional_fields)"
    "''branchName'' \<in> set (required_fields @ optional_fields)"
    by (simp_all add: optional_fields_def)
  have rec: "\<And>k. jsget (named (?recs ! i)) k =
     (if k \<in> set (required_fields @ optional_fields)
      then map_option reparsed
             (jsget (named (patch_worktree worktreePath branchName (JObj (?L ! i)))) k)
      else None)"
    using i by (simp add: jsget_stringified_project del: set_append)
  have "length ?recs = length ?L" by simp
  moreover have "given worktreePath \<longrightarrow>
           jsget (named (?recs ! i)) ''worktreePath'' = Some (nullable worktreePath) \<and>
           jsget (named (?recs ! i)) ''branchName'' = Some (nullable branchName)"
    unfolding rec using k by (simp add: jsget_patch_worktree reparsed_nullable del: set_append)
  moreover have "\<not> given worktreePath \<longrightarrow>
           jsget (named (?recs ! i)) ''worktreePath'' = None \<and>
           jsget (named (?recs ! i)) ''branchName'' = None"
    unfolding rec using k by (simp add: jsget_patch_worktree reparsed_nullable del: set_append)
  ultimately show ?thesis using r f by blast
qed

theorem updateFeatureWorktree_sets_or_clears_both_witness:
  "\<exists>recs.
     files (snd (updateFeatureWorktree
                   (snd (updateFeatureWorktree one_feature_fs (fixed_clock 0) ''a'' ''proj''
                           (Some ''/wt'') (Some ''feat'')))
                   (fixed_clock 0) ''a'' ''proj'' None None))
       (featuresPath ''proj'') = Some (Doc (JArr recs)) \<and>
     jsget (named (recs ! 0)) ''worktreePath'' = None \<and>
     jsget (named (recs ! 0)) ''branchName'' = None"
proof -
  let ?fs1 = "snd (updateFeatureWorktree one_feature_fs (fixed_clock 0) ''a'' ''proj''
                           (Some ''/wt'') (Some ''feat''))"
  obtain r fs' where u: "updateFeatureWorktree ?fs1 (fixed_clock 0) ''a'' ''proj'' None None = (r, fs')"
    by (cases "updateFeatureWorktree ?fs1 (fixed_clock 0) ''a'' ''proj'' None None")
  have l: "loadFeatures ?fs1 (fixed_clock 0) ''proj'' =
      [[(''id'', JStr ''a''), (''status'', JStr ''backlog''),
        (''worktreePath'', JStr ''/wt''), (''branchName'', JStr ''feat'')]]"
    unfolding one_feature_set_worktree snd_conv
    by (simp add: loadFeatures_def readFile_def ensure_id_def member_def jsget_def or_else_def
        enumerate_eq_zip)
  have f: "find_by_id ''a'' (map JObj (loadFeatures ?fs1 (fixed_clock 0) ''proj'')) = Inr (Some 0)"
    unfolding l by (simp add: member_def jsget_def)
  have k: "featuresPath ''proj'' \<notin> locked ?fs1"
    unfolding one_feature_set_worktree snd_conv by simp
  from updateFeatureWorktree_sets_or_clears_both [OF f k u]
  obtain recs where "files fs' (featuresPath ''proj'') = Some (Doc (JArr recs))"
    and "jsget (named (recs ! 0)) ''worktreePath'' = None"
    and "jsget (named (recs ! 0)) ''branchName'' = None"
    by auto
  then show ?thesis unfolding u snd_conv by blast
qed

section \<open>Blank lines\<close>

lemma white_space_nonempty: "[] \<notin> set white_space"
  by (simp add: white_space_def)

lemma white_space_prefix_free:
  "\<forall>a\<in>set white_space. \<forall>b\<in>set white_space. take (length a) b = a \<longrightarrow> a = b"
  by (simp add: white_space_def)

lemma strip_Nil: "strip table [] = []"
proof -
  have "List.find (\<lambda>w. w \<noteq> [] \<and> take (length w) [] = w) table = None"
    by (auto simp: find_None_iff)
  then show ?thesis by (subst strip.simps) simp
qed

lemma strip_no_prefix:
  "List.find (\<lambda>w. w \<noteq> [] \<and> take (length w) (strip table s) = w) table = None"
proof (induction table s rule: strip.induct)
  case (1 table s)
  show ?case
  proof (cases "List.find (\<lambda>w. w \<noteq> [] \<and> take (length w) s = w) table")
    case None
    then have "strip table s = s" by (subst strip.simps) simp
    with None show ?thesis by simp
  next
    case (Some w)
    then have "strip table s = strip table (drop (length w) s)" by (subst strip.simps) simp
    with "1.IH" [OF Some] show ?thesis by simp
  qed
qed

lemma strip_decomp: "\<exists>ws. set ws \<subseteq> set table \<and> s = concat ws @ strip table s"
proof (induction table s rule: strip.induct)
  case (1 table s)
  show ?case
  proof (cases "List.find (\<lambda>w. w \<noteq> [] \<and> take (length w) s = w) table")
    case None
    then have "strip table s = s" by (subst strip.simps) simp
    then have "set [] \<subseteq> set table \<and> s = concat [] @ strip table s" by simp
    then show ?thesis by blast
  next
    case (Some w)
    then have st: "strip table s = strip table (drop (length w) s)" by (subst strip.simps) simp
    from Some have w: "w \<in> set table" "take (length w) s = w"
      by (auto simp: find_Some_iff)
    from "1.IH" [OF Some] obtain ws where ws: "set ws \<subseteq> set table"
      "drop (length w) s = concat ws @ strip table (drop (length w) s)" by blast
    have "s = take (length w) s @ drop (length w) s" by simp
    with w ws st have "set (w # ws) \<subseteq> set table \<and> s = concat (w # ws) @ strip table s"
      by (metis append.assoc concat.simps(2) insert_subset list.simps(15))
    then show ?thesis by blast
  qed
qed

lemma strip_concat:
  assumes ne: "[] \<notin> set table"
    and pf: "\<forall>a\<in>set table. \<forall>b\<in>set table. take (length a) b = a \<longrightarrow> a = b"
  shows "set ws \<subseteq> set table \<Longrightarrow> strip table (concat ws @ r) = strip table r"
proof (induction ws)
  case Nil
  then show ?case by simp
next
  case (Cons w ws)
  then have w: "w \<in> set table" and ws: "set ws \<subseteq> set table" by simp_all
  let ?s = "concat (w # ws) @ r"
  from w ne have wne: "w \<noteq> []" by auto
  have pw: "take (length w) ?s = w" by simp
  with w wne have "\<exists>x\<in>set table. x \<noteq> [] \<and> take (length x) ?s = x" by blast
  then obtain w' where f: "List.find (\<lambda>w. w \<noteq> [] \<and> take (length w) ?s = w) table = Some w'"
    by (cases "List.find (\<lambda>w. w \<noteq> [] \<and> take (length w) ?s = w) table")
       (auto simp: find_None_iff)
  then have w': "w' \<in> set table" "take (length w') ?s = w'"
    by (auto simp: find_Some_iff)
  have "w' = w"
  proof (cases "length w' \<le> length w")
    case True
    have "take (length w') w = take (length w') (take (length w) ?s)" by (simp only: pw)
    also have "\<dots> = take (length w') ?s" using True by (simp only: take_take min.absorb1)
    finally have "take (length w') w = take (length w') ?s" .
    then have "take (length w') w = w'" using w'(2) by (rule trans)
    with pf w w' show ?thesis by blast
  next
    case False
    then have le: "length w \<le> length w'" by simp
    have "take (length w) w' = take (length w) (take (length w') ?s)" by (simp only: w'(2))
    also have "\<dots> = take (length w) ?s" using le by (simp only: take_take min.absorb1)
    finally have "take (length w) w' = take (length w) ?s" .
    then have "take (length w) w' = w" using pw by (rule trans)
    with pf w w' show ?thesis by blast
  qed
  with f have "strip table ?s = strip table (drop (length w) ?s)"
    by (subst strip.simps) simp
  also have "drop (length w) ?s = concat ws @ r" by simp
  finally show ?case using Cons.IH [OF ws] by simp
qed

lemma trim_empty_iff:
  "trim l = [] \<longleftrightarrow> (\<exists>ws. set ws \<subseteq> set white_space \<and> l = concat ws)"
proof
  assume t: "trim l = []"
  let ?x = "strip white_space l"
  let ?T' = "map rev white_space"
  from t have e: "strip ?T' (rev ?x) = []" by (simp add: trim_def)
  from strip_decomp [of ?T' "rev ?x"] e
  obtain vs where vs: "set vs \<subseteq> set ?T'" "rev ?x = concat vs" by auto
  have x: "?x = []"
  proof (rule ccontr)
    assume nx: "?x \<noteq> []"
    have "?x = concat (map rev (rev vs))"
      using vs(2) by (metis rev_concat rev_rev_ident)
    moreover have sub: "set (map rev (rev vs)) \<subseteq> set white_space"
      using vs(1) by auto
    ultimately obtain us where us: "?x = concat us" "set us \<subseteq> set white_space" by blast
    with nx obtain u rest where u: "us = u # rest" by (cases us) auto
    with us white_space_nonempty have "u \<in> set white_space" "u \<noteq> []" "take (length u) ?x = u"
      by auto
    then have "List.find (\<lambda>w. w \<noteq> [] \<and> take (length w) ?x = w) white_space \<noteq> None"
      by (auto simp: find_None_iff)
    with strip_no_prefix [of white_space l] show False by simp
  qed
  from strip_decomp [of white_space l] x
  show "\<exists>ws. set ws \<subseteq> set white_space \<and> l = concat ws" by auto
next
  assume "\<exists>ws. set ws \<subseteq> set white_space \<and> l = concat ws"
  then obtain ws where ws: "set ws \<subseteq> set white_space" "l = concat ws" by blast
  from strip_concat [OF white_space_nonempty white_space_prefix_free ws(1), of "[]"] ws(2)
  have "strip white_space l = []" by (simp add: strip_Nil)
  then show "trim l = []" by (simp add: trim_def strip_Nil)
qed

section \<open>The records of a JSONL process\<close>

lemma split_example:
  "split_lines [] example_stdout = [line_a, ''NOT JSON'', line_b]"
  by (simp add: example_stdout_def line_a_def line_b_def)

lemma split_spaced:
  "split_lines [] spaced_stdout =
     [line_a, [], ''  '' @ [CHR 0x09], [CHR 0xC2, CHR 0xA0], ''NOT JSON'', blank_line, line_b]"
  by (simp add: spaced_stdout_def line_a_def line_b_def blank_line_def)

lemma trim_example:
  "trim line_a \<noteq> []" "trim ''NOT JSON'' \<noteq> []" "trim line_b \<noteq> []"
  "trim zero_width_line \<noteq> []"
  by (simp_all add: trim_def strip.simps white_space_def line_a_def line_b_def
      zero_width_line_def)

lemma trim_blank:
  "trim [] = []" "trim (''  '' @ [CHR 0x09]) = []" "trim [CHR 0xC2, CHR 0xA0] = []"
  "trim blank_line = []"
  by (simp_all add: trim_def strip.simps white_space_def blank_line_def)


lemma process_lines_map_filter:
  "process_lines parse ls =
     map (\<lambda>l. case parse l of Some v \<Rightarrow> v
                | None \<Rightarrow> JObj [(''type'', JStr ''error''),
                                 (''error'', JStr (''Failed to parse output: '' @ l))])
       (filter (\<lambda>l. \<not> (\<exists>ws. set ws \<subseteq> set white_space \<and> l = concat ws)) ls)"
  by (induction ls) (simp_all add: trim_empty_iff error_record_def split: option.splits)

lemma spawnJSONLProcess_missed_exit:
  "exitEvent p = Missed \<Longrightarrow> \<not> read_error p \<Longrightarrow>
   spawnJSONLProcess parse p = (process_lines parse (split_lines [] (stdout p)), Pending)"
  by (simp add: spawnJSONLProcess_def Let_def)

text \<open>
  Claim C6. The records yielded from the standard output are, in order, one per line
  that is not made of white space only: the parsed value, or for a line that does not
  parse the record \<^verbatim>\<open>{type: "error", error: "Failed to parse output: <line>"}\<close>; blank
  lines yield nothing and a malformed line does not end the stream. Nothing follows these
  records unless the process is seen to exit with a code other than 0. For the output
  \<^verbatim>\<open>{"a":1}\nNOT JSON\n{"b":2}\n\<close> of a process that exits with code 0, the stream is
  exactly the first value, the error record for \<^verbatim>\<open>NOT JSON\<close>, and the second value, and
  so it is with empty lines and lines of spaces, tabs, no-break spaces and other white
  space in between. A line holding only U+200B is not blank.
\<close>

theorem spawnJSONLProcess_lines:
  "(\<exists>rest. fst (spawnJSONLProcess parse p) =
      map (\<lambda>l. case parse l of Some v \<Rightarrow> v
                 | None \<Rightarrow> JObj [(''type'', JStr ''error''),
                                  (''error'', JStr (''Failed to parse output: '' @ l))])
        (filter (\<lambda>l. \<not> (\<exists>ws. set ws \<subseteq> set white_space \<and> l = concat ws))
           (split_lines [] (stdout p))) @ rest \<and>
      (read_error p \<or> exitEvent p = Missed \<or> exitEvent p = Exited None \<or>
       exitEvent p = Exited (Some 0) \<longrightarrow> rest = [])) \<and>
   (parse line_a = Some a \<and> parse ''NOT JSON'' = None \<and> parse line_b = Some b \<longrightarrow>
      spawnJSONLProcess parse
        \<lparr>stdout = example_stdout, read_error = False, stderrOutput = e,
         exitEvent = Exited (Some 0)\<rparr> =
      ([a, JObj [(''type'', JStr ''error''), (''error'', JStr ''Failed to parse output: NOT JSON'')],
        b], Returned) \<and>
      spawnJSONLProcess parse
        \<lparr>stdout = spaced_stdout, read_error = False, stderrOutput = e,
         exitEvent = Exited (Some 0)\<rparr> =
      ([a, JObj [(''type'', JStr ''error''), (''error'', JStr ''Failed to parse output: NOT JSON'')],
        b], Returned)) \<and>
   (parse zero_width_line = None \<longrightarrow>
      spawnJSONLProcess parse
        \<lparr>stdout = zero_width_line, read_error = False, stderrOutput = e,
         exitEvent = Exited (Some 0)\<rparr> =
      ([JObj [(''type'', JStr ''error''),
              (''error'', JStr (''Failed to parse output: '' @ [CHR 0xE2, CHR 0x80, CHR 0x8B]))]],
       Returned))"
proof (intro conjI impI)
  let ?M = "map (\<lambda>l. case parse l of Some v \<Rightarrow> v
                 | None \<Rightarrow> JObj [(''type'', JStr ''error''),
                                  (''error'', JStr (''Failed to parse output: '' @ l))])
        (filter (\<lambda>l. \<not> (\<exists>ws. set ws \<subseteq> set white_space \<and> l = concat ws))
           (split_lines [] (stdout p)))"
  let ?rest = "if read_error p then []
               else (case exitEvent p of Missed \<Rightarrow> [] | Exited c \<Rightarrow> exit_records (stderrOutput p) c)"
  have "fst (spawnJSONLProcess parse p) =
          process_lines parse (split_lines [] (stdout p)) @ ?rest"
    by (simp add: spawnJSONLProcess_def Let_def split: exit_event.splits)
  then have "fst (spawnJSONLProcess parse p) = ?M @ ?rest"
    by (simp only: process_lines_map_filter)
  moreover have "read_error p \<or> exitEvent p = Missed \<or> exitEvent p = Exited None \<or>
       exitEvent p = Exited (Some 0) \<longrightarrow> ?rest = []"
    by (auto simp: exit_records_def)
  ultimately show "\<exists>rest. fst (spawnJSONLProcess parse p) = ?M @ rest \<and>
      (read_error p \<or> exitEvent p = Missed \<or> exitEvent p = Exited None \<or>
       exitEvent p = Exited (Some 0) \<longrightarrow> rest = [])"
    by blast
next
  assume "parse line_a = Some a \<and> parse ''NOT JSON'' = None \<and> parse line_b = Some b"
  then show "spawnJSONLProcess parse
        \<lparr>stdout = example_stdout, read_error = False, stderrOutput = e,
         exitEvent = Exited (Some 0)\<rparr> =
      ([a, JObj [(''type'', JStr ''error''), (''error'', JStr ''Failed to parse output: NOT JSON'')],
        b], Returned)"
    by (simp add: spawnJSONLProcess_def Let_def split_example trim_example exit_records_def
        error_record_def)
next
  assume "parse line_a = Some a \<and> parse ''NOT JSON'' = None \<and> parse line_b = Some b"
  then show "spawnJSONLProcess parse
        \<lparr>stdout = spaced_stdout, read_error = False, stderrOutput = e,
         exitEvent = Exited (Some 0)\<rparr> =
      ([a, JObj [(''type'', JStr ''error''), (''error'', JStr ''Failed to parse output: NOT JSON'')],
        b], Returned)"
    using trim_blank(2)
    by (simp add: spawnJSONLProcess_def Let_def split_spaced trim_example trim_blank
        exit_records_def error_record_def)
next
  assume "parse zero_width_line = None"
  then show "spawnJSONLProcess parse
        \<lparr>stdout = zero_width_line, read_error = False, stderrOutput = e,
         exitEvent = Exited (Some 0)\<rparr> =
      ([JObj [(''type'', JStr ''error''),
              (''error'', JStr (''Failed to parse output: '' @ [CHR 0xE2, CHR 0x80, CHR 0x8B]))]],
       Returned)"
    using trim_example(4)
    by (simp add: spawnJSONLProcess_def Let_def exit_records_def error_record_def
        zero_width_line_def)
qed

theorem spawnJSONLProcess_lines_witness:
  "spawnJSONLProcess sample_parse
     \<lparr>stdout = spaced_stdout, read_error = False, stderrOutput = [],
      exitEvent = Exited (Some 0)\<rparr> =
   ([JObj [(''a'', JNum (Finite 1))],
     JObj [(''type'', JStr ''error''), (''error'', JStr ''Failed to parse output: NOT JSON'')],
     JObj [(''b'', JNum (Finite 2))]], Returned)"
proof -
  have "sample_parse line_a = Some (JObj [(''a'', JNum (Finite 1))]) \<and>
        sample_parse ''NOT JSON'' = None \<and>
        sample_parse line_b = Some (JObj [(''b'', JNum (Finite 2))])"
    by (simp add: sample_parse_def line_a_def line_b_def)
  with spawnJSONLProcess_lines
    [of sample_parse _ "JObj [(''a'', JNum (Finite 1))]" "JObj [(''b'', JNum (Finite 2))]" "[]"]
  show ?thesis by blast
qed

text \<open>
  Claim C5, as stated, fails for the exit code \<^verbatim>\<open>null\<close>: the test is
  \<^verbatim>\<open>exitCode !== 0 && exitCode !== null\<close>, so a process that was killed yields no
  record at all, whatever it wrote to its standard error.
\<close>

theorem spawnJSONLProcess_null_exit_silent:
  "exitEvent killed_process = Exited None \<and> stderrOutput killed_process = ''boom'' \<and>
   spawnJSONLProcess sample_parse killed_process = ([], Returned)"
  by (simp add: spawnJSONLProcess_def killed_process_def exit_records_def)

text \<open>
  Claim C5, amended. When the exit of the process reaches the generator with a code that
  is neither 0 nor \<^verbatim>\<open>null\<close> and the output stream was read without error, the generator
  returns after one last record \<^verbatim>\<open>{type: "error", error: <message>}\<close>, where the message
  is the standard error text, or \<^verbatim>\<open>Process exited with code <code>\<close> when that text is
  empty. When the exit code that reaches it is \<^verbatim>\<open>null\<close> or 0, it returns without such
  a record.
\<close>

theorem spawnJSONLProcess_exit:
  "(exitEvent p = Exited (Some code) \<and> code \<noteq> 0 \<and> \<not> read_error p \<longrightarrow>
      spawnJSONLProcess parse p =
        (process_lines parse (split_lines [] (stdout p)) @
         [JObj [(''type'', JStr ''error''),
                (''error'', JStr (if stderrOutput p = []
                                  then ''Process exited with code '' @ string_of_nat code
                                  else stderrOutput p))]],
         Returned)) \<and>
   ((exitEvent p = Exited None \<or> exitEvent p = Exited (Some 0)) \<and> \<not> read_error p \<longrightarrow>
      spawnJSONLProcess parse p = (process_lines parse (split_lines [] (stdout p)), Returned)) \<and>
   spawnJSONLProcess parse
     \<lparr>stdout = [], read_error = False, stderrOutput = [], exitEvent = Exited (Some 137)\<rparr> =
     ([JObj [(''type'', JStr ''error''), (''error'', JStr ''Process exited with code 137'')]],
      Returned) \<and>
   spawnJSONLProcess parse
     \<lparr>stdout = [], read_error = False, stderrOutput = ''boom'', exitEvent = Exited (Some 1)\<rparr> =
     ([JObj [(''type'', JStr ''error''), (''error'', JStr ''boom'')]], Returned)"
  by (auto simp: spawnJSONLProcess_def Let_def exit_records_def error_record_def
      string_of_nat.simps)

theorem spawnJSONLProcess_exit_witness:
  "spawnJSONLProcess sample_parse failed_process =
     ([JObj [(''type'', JStr ''error''), (''error'', JStr ''Process exited with code 2'')]],
      Returned)"
proof -
  have "exitEvent failed_process = Exited (Some 2) \<and> (2::nat) \<noteq> 0 \<and>
        \<not> read_error failed_process"
    by (simp add: failed_process_def)
  with spawnJSONLProcess_exit [of failed_process 2 sample_parse]
  have "spawnJSONLProcess sample_parse failed_process =
        (process_lines sample_parse (split_lines [] (stdout failed_process)) @
         [JObj [(''type'', JStr ''error''),
                (''error'', JStr (if stderrOutput failed_process = []
                                  then ''Process exited with code '' @ string_of_nat 2
                                  else stderrOutput failed_process))]],
         Returned)"
    by blast
  then show ?thesis by (simp add: failed_process_def string_of_nat.simps)
qed

end
